theory Spec2Isabelle
  imports Complex_Main
begin

section \<open>JavaScript strings\<close>

text \<open>
  A JavaScript string is a sequence of UTF-16 code units; \<open>length\<close>, \<open>split\<close>,
  \<open>trim\<close> and regular expressions without the \<open>u\<close> flag all work on code units.
  The Greek letters of the patterns lie outside the 8-bit characters of HOL, so a string
  is a list of code-unit numbers. ASCII literals are written through \<open>js\<close>.
\<close>

type_synonym jsstring = "nat list"

definition js :: "string \<Rightarrow> jsstring" where
  "js s = map of_char s"

text \<open>
  The code units that \<open>String.prototype.trim\<close> strips and that \<open>\s\<close> matches:
  the WhiteSpace and LineTerminator productions of ECMAScript.
\<close>

definition whiteSpace :: "nat list" where
  "whiteSpace =
     [0x0009, 0x000A, 0x000B, 0x000C, 0x000D, 0x0020, 0x00A0, 0x1680,
      0x2000, 0x2001, 0x2002, 0x2003, 0x2004, 0x2005, 0x2006, 0x2007, 0x2008, 0x2009, 0x200A,
      0x2028, 0x2029, 0x202F, 0x205F, 0x3000, 0xFEFF]"

definition isWhiteSpace :: "nat \<Rightarrow> bool" where
  "isWhiteSpace c = (c \<in> set whiteSpace)"

definition trim :: "jsstring \<Rightarrow> jsstring" where
  "trim s = rev (dropWhile isWhiteSpace (rev (dropWhile isWhiteSpace s)))"

text \<open>\<open>s.split(sep)\<close> for a one-unit separator; it always returns at least one piece.\<close>

fun split :: "nat \<Rightarrow> jsstring \<Rightarrow> jsstring list" where
  "split sep [] = [[]]"
| "split sep (c # cs) =
     (if c = sep then [] # split sep cs
      else (let r = split sep cs in (c # hd r) # tl r))"

section \<open>Regular expressions\<close>

text \<open>
  The regular expressions of \<open>processSmartMetadata\<close> use literals, character classes,
  \<open>+\<close> and \<open>+?\<close> on a single class, alternation, one capturing group, \<open>^\<close> and \<open>$\<close>.
  \<open>ms r s (i, c)\<close> lists, in the order in which the backtracking matcher of ECMAScript
  tries them, the states in which \<open>r\<close> can finish when started at index \<open>i\<close> of \<open>s\<close> with
  capture \<open>c\<close>; a state is the end index and the bounds of group 1.
\<close>

datatype regex =
    Empty
  | Sym "nat \<Rightarrow> bool"
  | Bol
  | Eol
  | Seq regex regex
  | Alt regex regex
  | Plus "nat \<Rightarrow> bool"
  | PlusLazy "nat \<Rightarrow> bool"
  | Group regex

type_synonym mstate = "nat \<times> (nat \<times> nat) option"

definition run :: "(nat \<Rightarrow> bool) \<Rightarrow> jsstring \<Rightarrow> nat \<Rightarrow> nat" where
  "run p s i = length (takeWhile p (drop i s))"

fun ms :: "regex \<Rightarrow> jsstring \<Rightarrow> mstate \<Rightarrow> mstate list" where
  "ms Empty s st = [st]"
| "ms (Sym p) s (i, c) = (if i < length s \<and> p (s ! i) then [(Suc i, c)] else [])"
| "ms Bol s (i, c) = (if i = 0 then [(i, c)] else [])"
| "ms Eol s (i, c) = (if i = length s then [(i, c)] else [])"
| "ms (Seq a b) s st = concat (map (ms b s) (ms a s st))"
| "ms (Alt a b) s st = ms a s st @ ms b s st"
| "ms (Plus p) s (i, c) = map (\<lambda>n. (i + n, c)) (rev [1..<Suc (run p s i)])"
| "ms (PlusLazy p) s (i, c) = map (\<lambda>n. (i + n, c)) [1..<Suc (run p s i)]"
| "ms (Group a) s (i, c) = map (\<lambda>(j, c'). (j, Some (i, j))) (ms a s (i, c))"

text \<open>
  \<open>str.match(re)\<close> for a regular expression without the \<open>g\<close> flag: the start indices
  \<open>0 .. length\<close> are tried in order and the first way to finish wins.
\<close>

fun search :: "regex \<Rightarrow> jsstring \<Rightarrow> nat list \<Rightarrow> mstate option" where
  "search r s [] = None"
| "search r s (i # is) =
     (case ms r s (i, None) of [] \<Rightarrow> search r s is | m # _ \<Rightarrow> Some m)"

definition match :: "regex \<Rightarrow> jsstring \<Rightarrow> mstate option" where
  "match r s = search r s [0..<Suc (length s)]"

text \<open>Element \<open>[1]\<close> of a match result: the text of group 1, or \<open>undefined\<close>.\<close>

fun group1 :: "jsstring \<Rightarrow> mstate \<Rightarrow> jsstring option" where
  "group1 s (j, None) = None"
| "group1 s (j, Some (a, b)) = Some (take (b - a) (drop a s))"

subsection \<open>The \<open>i\<close> flag\<close>

text \<open>
  Without the \<open>u\<close> flag, ECMAScript compares \<open>Canonicalize(ch)\<close>: the upper case of the
  code unit when that is a single code unit (and not an ASCII image of a non-ASCII unit),
  the unit itself otherwise. A class matches \<open>ch\<close> when some member of the class has the
  canonical form of \<open>ch\<close>. \<open>canonicalize\<close> below is that function on every code unit whose
  image lies in the alphabet of the patterns (Latin and Greek letters, the colon, white
  space); on a unit whose upper case lies elsewhere it is the identity, which changes no
  result of a match against these patterns.
\<close>

definition canonicalize :: "nat \<Rightarrow> nat" where
  "canonicalize ch =
     (if 0x61 \<le> ch \<and> ch \<le> 0x7A then ch - 0x20
      else if ch = 0x00B5 then 0x039C
      else if ch = 0x0345 then 0x0399
      else if ch = 0x03AC then 0x0386
      else if 0x03AD \<le> ch \<and> ch \<le> 0x03AF then ch - 0x25
      else if ch = 0x03C2 then 0x03A3
      else if 0x03B1 \<le> ch \<and> ch \<le> 0x03CB then ch - 0x20
      else if ch = 0x03CC then 0x038C
      else if 0x03CD \<le> ch \<and> ch \<le> 0x03CE then ch - 0x3F
      else if ch = 0x03D0 then 0x0392
      else if ch = 0x03D1 then 0x0398
      else if ch = 0x03D5 then 0x03A6
      else if ch = 0x03D6 then 0x03A0
      else if ch = 0x03F0 then 0x039A
      else if ch = 0x03F1 then 0x03A1
      else if ch = 0x03F5 then 0x0395
      else if ch = 0x1FBE then 0x0399
      else ch)"

definition ci :: "nat \<Rightarrow> nat \<Rightarrow> bool" where
  "ci p ch = (canonicalize ch = canonicalize p)"

definition cls_ci :: "nat list \<Rightarrow> nat \<Rightarrow> bool" where
  "cls_ci A ch = (canonicalize ch \<in> set (map canonicalize A))"

fun lit_ci :: "jsstring \<Rightarrow> regex" where
  "lit_ci [] = Empty"
| "lit_ci (p # ps) = Seq (Sym (ci p)) (lit_ci ps)"

subsection \<open>The patterns of \<open>processSmartMetadata\<close>\<close>

definition mousiki :: jsstring where
  "mousiki = [0x039C, 0x03BF, 0x03C5, 0x03C3, 0x03B9, 0x03BA, 0x03AE]"

definition stichoi :: jsstring where
  "stichoi = [0x03A3, 0x03C4, 0x03AF, 0x03C7, 0x03BF, 0x03B9]"

text \<open>\<open>[\<Alpha>-\<Omega>\<alpha>-\<omega>\<alpha>'-\<omega>'A-Za-z\s]\<close>, with the Greek ranges U+0391-03A9, U+03B1-03C9, U+03AC-03CE.\<close>

definition nameClass :: "nat list" where
  "nameClass = [0x0391..<0x03AA] @ [0x03B1..<0x03CA] @ [0x03AC..<0x03CF]
               @ [0x41..<0x5B] @ [0x61..<0x7B] @ whiteSpace"

text \<open>\<open>/^(\<Mu>\<omicron>\<upsilon>\<sigma>\<iota>\<kappa>\<eta>'|\<Sigma>\<tau>\<iota>'\<chi>\<omicron>\<iota>|Music|Lyrics|Composer):/i\<close>\<close>

definition labelRe :: regex where
  "labelRe =
     Seq Bol
      (Seq (Group (Alt (lit_ci mousiki) (Alt (lit_ci stichoi) (Alt (lit_ci (js ''Music''))
              (Alt (lit_ci (js ''Lyrics'')) (lit_ci (js ''Composer'')))))))
           (Sym (ci 0x3A)))"

text \<open>\<open>/\<Mu>\<omicron>\<upsilon>\<sigma>\<iota>\<kappa>\<eta>'[:\s]+([...]+?)(?:\s+\<Sigma>\<tau>\<iota>'\<chi>\<omicron>\<iota>|\s+Lyrics|$)/i\<close>\<close>

definition musicRe :: regex where
  "musicRe =
     Seq (lit_ci mousiki)
      (Seq (Plus (cls_ci (0x3A # whiteSpace)))
        (Seq (Group (PlusLazy (cls_ci nameClass)))
          (Alt (Seq (Plus (cls_ci whiteSpace)) (lit_ci stichoi))
            (Alt (Seq (Plus (cls_ci whiteSpace)) (lit_ci (js ''Lyrics''))) Eol))))"

text \<open>\<open>/\<Sigma>\<tau>\<iota>'\<chi>\<omicron>\<iota>[:\s]+([...]+?)(?:\s+\<Mu>\<omicron>\<upsilon>\<sigma>\<iota>\<kappa>\<eta>'|\s+Music|$)/i\<close>\<close>

definition lyricsRe :: regex where
  "lyricsRe =
     Seq (lit_ci stichoi)
      (Seq (Plus (cls_ci (0x3A # whiteSpace)))
        (Seq (Group (PlusLazy (cls_ci nameClass)))
          (Alt (Seq (Plus (cls_ci whiteSpace)) (lit_ci mousiki))
            (Alt (Seq (Plus (cls_ci whiteSpace)) (lit_ci (js ''Music''))) Eol))))"

section \<open>The metadata extractor\<close>

text \<open>The classes of \<open>isCleanLine\<close>; its patterns have no \<open>i\<close> flag.\<close>

definition isGreekLetter :: "nat \<Rightarrow> bool" where
  "isGreekLetter c =
     ((0x0391 \<le> c \<and> c \<le> 0x03A9) \<or> (0x03B1 \<le> c \<and> c \<le> 0x03C9) \<or> (0x03AC \<le> c \<and> c \<le> 0x03CE))"

definition isLatinLetter :: "nat \<Rightarrow> bool" where
  "isLatinLetter c = ((0x41 \<le> c \<and> c \<le> 0x5A) \<or> (0x61 \<le> c \<and> c \<le> 0x7A))"

definition noiseList :: "nat list" where
  "noiseList =
   [
    0x0313, 0x0300, 0x0301, 0x0308, 0x0342, 0x0345, 0x1FBD, 0x1FFE, 0x1FBF, 0x1FCE, 0x1FCD,
    0x1FCF, 0x1FDD, 0x1FDE, 0x1FDF, 0x1FED, 0x0385, 0x0060, 0x0384, 0x0027, 0x0027, 0x201B,
    0x0022, 0x0022, 0x201F, 0x2024, 0x2025, 0x2026, 0x2027, 0x002D, 0x2013, 0x2014, 0x2015,
    0x002E, 0x00B7, 0x2022, 0x25CB, 0x25CF, 0x25E6, 0x25D8, 0x25D9, 0x25CC, 0x25CD, 0x25CE,
    0x25D0, 0x25D1, 0x25D2, 0x25D3, 0x25D4, 0x25D5, 0x25D6, 0x25D7, 0x25F0, 0x25F1, 0x25F2,
    0x25F3, 0x25F4, 0x25F5, 0x25F6, 0x25F7, 0x25F8, 0x25F9, 0x25FA, 0x25FB, 0x25FC, 0x25FD,
    0x25FE, 0x25FF, 0x2600, 0x2601, 0x2602, 0x2603, 0x2604, 0x2605, 0x2606, 0x2607, 0x2608,
    0x2609, 0x260A, 0x260B, 0x260C, 0x260D, 0x260E, 0x260F, 0x2610, 0x2611, 0x2612, 0x2613,
    0x2614, 0x2615, 0x2616, 0x2617, 0x2618, 0x2619, 0x261A, 0x261B, 0x261C, 0x261D, 0x261E,
    0x261F, 0x2620, 0x2621, 0x2622, 0x2623, 0x2624, 0x2625, 0x2626, 0x2627, 0x2628, 0x2629,
    0x262A, 0x262B, 0x262C, 0x262D, 0x262E, 0x262F, 0x2630, 0x2631, 0x2632, 0x2633, 0x2634,
    0x2635, 0x2636, 0x2637, 0x2638, 0x2639, 0x263A, 0x263B, 0x263C, 0x263D, 0x263E, 0x263F,
    0x2640, 0x2641, 0x2642, 0x2643, 0x2644, 0x2645, 0x2646, 0x2647, 0x2648, 0x2649, 0x264A,
    0x264B, 0x264C, 0x264D, 0x264E, 0x264F, 0x2650, 0x2651, 0x2652, 0x2653, 0x2654, 0x2655,
    0x2656, 0x2657, 0x2658, 0x2659, 0x265A, 0x265B, 0x265C, 0x265D, 0x265E, 0x265F, 0x2660,
    0x2661, 0x2662, 0x2663, 0x2664, 0x2665, 0x2666, 0x2667, 0x2668, 0x2669, 0x266A, 0x266B,
    0x266C, 0x266D, 0x266E, 0x266F
   ]"

definition isNoiseChar :: "nat \<Rightarrow> bool" where
  "isNoiseChar c = (c \<in> set noiseList)"

definition isCleanLine :: "jsstring \<Rightarrow> bool" where
  "isCleanLine txt =
     (let greekLetters = length (filter isGreekLetter txt);
          latinLetters = length (filter isLatinLetter txt);
          totalLetters = greekLetters + latinLetters;
          noiseChars = length (filter isNoiseChar txt)
      in totalLetters \<ge> 3 \<and> totalLetters > noiseChars)"

record tesseractData =
  ocr_text :: "jsstring option"

datatype error = TypeError | LibraryError

text \<open>The first loop: the title.\<close>

fun find_title :: "jsstring list \<Rightarrow> jsstring" where
  "find_title [] = []"
| "find_title (line # rest) =
     (if \<not> isCleanLine line then find_title rest
      else if match labelRe line \<noteq> None then find_title rest
      else if length line \<ge> 4 then line
      else find_title rest)"

text \<open>
  The second loop: the labelled composer. The second argument is the variable
  \<open>composer\<close>; \<open>musicMatch[1].trim()\<close> is a TypeError when group 1 is undefined.
\<close>

fun label_scan :: "jsstring list \<Rightarrow> jsstring \<Rightarrow> error + jsstring" where
  "label_scan [] composer = Inr composer"
| "label_scan (line # rest) composer =
     (case match musicRe line of
        Some m \<Rightarrow>
          (case group1 line m of None \<Rightarrow> Inl TypeError | Some g \<Rightarrow> Inr (trim g))
      | None \<Rightarrow>
          (case match lyricsRe line of
             Some m \<Rightarrow>
               (if composer = [] then
                  (case group1 line m of None \<Rightarrow> Inl TypeError
                   | Some g \<Rightarrow> label_scan rest (trim g))
                else label_scan rest composer)
           | None \<Rightarrow> label_scan rest composer))"

text \<open>The third loop: the positional fallback, with its flag \<open>foundTitle\<close>.\<close>

fun positional :: "jsstring \<Rightarrow> jsstring list \<Rightarrow> bool \<Rightarrow> jsstring" where
  "positional ttl [] foundTitle = []"
| "positional ttl (line # rest) foundTitle =
     (if \<not> isCleanLine line then positional ttl rest foundTitle
      else if \<not> foundTitle then positional ttl rest True
      else if line \<noteq> ttl \<and> length line \<ge> 3 then line
      else positional ttl rest foundTitle)"

definition textLines :: "jsstring \<Rightarrow> jsstring list" where
  "textLines raw = filter (\<lambda>l. length l > 0) (map trim (split 0x0A raw))"

record metadata =
  title :: jsstring
  composer :: jsstring
  rawText :: jsstring

definition processSmartMetadata :: "tesseractData \<Rightarrow> error + metadata" where
  "processSmartMetadata tesseract =
     (let raw = (case ocr_text tesseract of None \<Rightarrow> [] | Some t \<Rightarrow> t);
          ls = textLines raw
      in if length ls = 0 then Inr \<lparr>title = [], composer = [], rawText = []\<rparr>
         else
           (let ttl = find_title ls in
            case label_scan ls [] of
              Inl e \<Rightarrow> Inl e
            | Inr c \<Rightarrow>
                Inr \<lparr>title = ttl,
                     composer = (if c = [] then positional ttl ls False else c),
                     rawText = raw\<rparr>))"

section \<open>The annotation compositor\<close>

text \<open>
  The download handler burns the stored annotations into the pages of the document.
  Numbers are modelled as exact reals. \<open>PDFDocument.load\<close>, \<open>embedFont\<close>, \<open>JSON.parse\<close>,
  \<open>rgb\<close>, \<open>drawLine\<close> and \<open>drawText\<close> belong to libraries outside the repository: the
  outcome of the first two is an input of the model, the others are parameters
  (\<open>pdflib\<close>), and a page records the drawing calls it has accepted.
\<close>

record point =
  p_x :: real
  p_y :: real

text \<open>
  An annotation object as the handler reads it. A field that is absent (\<open>undefined\<close>) is
  \<open>None\<close>; \<open>ann_color\<close> holds the JSON text of the colour.
\<close>

record annotation =
  ann_type :: jsstring
  ann_points :: "point list option"
  ann_color :: "jsstring option"
  ann_opacity :: "real option"
  ann_strokeWidth :: "real option"
  ann_text :: "jsstring option"
  ann_x :: real
  ann_y :: real
  ann_size :: "real option"

text \<open>
  What \<open>JSON.parse\<close> does on a colour text: it throws, or returns \<open>null\<close>, or returns a
  value whose properties \<open>r\<close>, \<open>g\<close>, \<open>b\<close> can be read (\<open>None\<close> for a property that is
  missing or not a number).
\<close>

datatype json = JSyntaxError | JNull | JObject "real option" "real option" "real option"

record 'c lineOptions =
  l_start :: "real \<times> real"
  l_end :: "real \<times> real"
  l_thickness :: real
  l_color :: 'c
  l_opacity :: real

record 'c textOptions =
  t_x :: real
  t_y :: real
  t_size :: real
  t_color :: 'c

datatype 'c drawop = DrawLine "'c lineOptions" | DrawText jsstring "'c textOptions"

record 'c page =
  page_width :: real
  page_height :: real
  page_content :: "'c drawop list"

text \<open>
  The library: \<open>rgb\<close> returns \<open>None\<close> when it throws; \<open>lineOk\<close> and \<open>textOk\<close> say whether
  \<open>drawLine\<close> and \<open>drawText\<close> accept their arguments (they throw otherwise).
\<close>

record 'c pdflib =
  JSON_parse :: "jsstring \<Rightarrow> json"
  rgb :: "real option \<Rightarrow> real option \<Rightarrow> real option \<Rightarrow> 'c option"
  lineOk :: "'c lineOptions \<Rightarrow> bool"
  textOk :: "jsstring \<Rightarrow> 'c textOptions \<Rightarrow> bool"

text \<open>
  \<open>colorObj = ann.color ? JSON.parse(ann.color) : colorObj\<close> inside its own
  \<open>try { } catch (e) {}\<close>: an absent or empty colour text, and a text that does not
  parse, leave the default.
\<close>

definition colorObj :: "'c pdflib \<Rightarrow> annotation \<Rightarrow> json \<Rightarrow> json" where
  "colorObj lib ann dflt =
     (case ann_color ann of
        None \<Rightarrow> dflt
      | Some s \<Rightarrow>
          (if s = [] then dflt
           else (case JSON_parse lib s of JSyntaxError \<Rightarrow> dflt | v \<Rightarrow> v)))"

text \<open>\<open>rgb(colorObj.r, colorObj.g, colorObj.b)\<close>: reading a property of \<open>null\<close> is a TypeError.\<close>

definition rgbOf :: "'c pdflib \<Rightarrow> json \<Rightarrow> error + 'c" where
  "rgbOf lib obj =
     (case obj of
        JObject r g b \<Rightarrow> (case rgb lib r g b of None \<Rightarrow> Inl LibraryError | Some c \<Rightarrow> Inr c)
      | _ \<Rightarrow> Inl TypeError)"

text \<open>
  The loop \<open>for (i = 0; i < pathPoints.length - 1; i++) page.drawLine({...})\<close>. A call
  that throws leaves the segments drawn so far on the page.
\<close>

fun drawSegments ::
  "'c pdflib \<Rightarrow> json \<Rightarrow> real \<Rightarrow> real \<Rightarrow> (real \<times> real) list \<Rightarrow> 'c page \<Rightarrow> 'c page \<times> error option"
where
  "drawSegments lib obj thickness opacity (a # b # rest) pg =
     (case rgbOf lib obj of
        Inl e \<Rightarrow> (pg, Some e)
      | Inr c \<Rightarrow>
          (let opts = \<lparr>l_start = a, l_end = b, l_thickness = thickness, l_color = c,
                       l_opacity = opacity\<rparr>
           in if lineOk lib opts
              then drawSegments lib obj thickness opacity (b # rest)
                     (pg\<lparr>page_content := page_content pg @ [DrawLine opts]\<rparr>)
              else (pg, Some LibraryError)))"
| "drawSegments lib obj thickness opacity ps pg = (pg, None)"

text \<open>\<open>ann.type === 'path' && ann.points && ann.points.length > 1\<close>\<close>

definition pathPointsOf :: "annotation \<Rightarrow> point list option" where
  "pathPointsOf ann =
     (if ann_type ann = js ''path'' then
        (case ann_points ann of
           None \<Rightarrow> None
         | Some ps \<Rightarrow> if length ps > 1 then Some ps else None)
      else None)"

text \<open>\<open>ann.type === 'text' && ann.text\<close>: an empty string is falsy.\<close>

definition textOf :: "annotation \<Rightarrow> jsstring option" where
  "textOf ann =
     (if ann_type ann = js ''text'' then
        (case ann_text ann of
           None \<Rightarrow> None
         | Some s \<Rightarrow> if s = [] then None else Some s)
      else None)"

text \<open>\<open>v || d\<close> on an optional number: \<open>undefined\<close> and \<open>0\<close> are falsy.\<close>

definition orDefault :: "real option \<Rightarrow> real \<Rightarrow> real" where
  "orDefault v d = (case v of None \<Rightarrow> d | Some n \<Rightarrow> if n = 0 then d else n)"

text \<open>The body of the inner \<open>try\<close>: the page afterwards and the exception thrown, if any.\<close>

definition drawAnnotation :: "'c pdflib \<Rightarrow> annotation \<Rightarrow> 'c page \<Rightarrow> 'c page \<times> error option" where
  "drawAnnotation lib ann pg =
     (let w = page_width pg; h = page_height pg in
      case pathPointsOf ann of
        Some ps \<Rightarrow>
          (let pathPoints = map (\<lambda>p. (p_x p * w, h - (p_y p * h))) ps;
               obj = colorObj lib ann (JObject (Some 1) (Some 1) (Some 0));
               opacity = (case ann_opacity ann of None \<Rightarrow> 0.5 | Some v \<Rightarrow> v);
               thickness = orDefault (ann_strokeWidth ann) 5
           in drawSegments lib obj thickness opacity pathPoints pg)
      | None \<Rightarrow>
          (case textOf ann of
             Some s \<Rightarrow>
               (let fontSize = orDefault (ann_size ann) 12;
                    x = ann_x ann * w;
                    y = h - (ann_y ann * h) - fontSize + 2;
                    obj = colorObj lib ann (JObject (Some 0) (Some 0) (Some 0))
                in case rgbOf lib obj of
                     Inl e \<Rightarrow> (pg, Some e)
                   | Inr c \<Rightarrow>
                       (let opts = \<lparr>t_x = x, t_y = y, t_size = fontSize, t_color = c\<rparr>
                        in if textOk lib s opts
                           then (pg\<lparr>page_content := page_content pg @ [DrawText s opts]\<rparr>, None)
                           else (pg, Some LibraryError)))
           | None \<Rightarrow> (pg, None)))"

text \<open>
  \<open>pageAnns.forEach(ann => { try { ... } catch (annErr) { console.error(...) } })\<close>:
  the exception is logged and dropped, the page keeps what was drawn.
\<close>

fun drawPageAnns :: "'c pdflib \<Rightarrow> annotation list \<Rightarrow> 'c page \<Rightarrow> 'c page" where
  "drawPageAnns lib [] pg = pg"
| "drawPageAnns lib (ann # anns) pg = drawPageAnns lib anns (fst (drawAnnotation lib ann pg))"

subsection \<open>Page keys\<close>

text \<open>
  \<open>parseInt(string)\<close> with no radix: leading white space is dropped, then a sign, then a
  \<open>0x\<close> prefix selects radix 16, and the longest run of digits is read; \<open>NaN\<close> (here
  \<open>None\<close>) when there is no digit. The result is compared with a page count only, so
  the rounding of integers beyond 2^53 is left out.
\<close>

definition digitValue :: "nat \<Rightarrow> nat" where
  "digitValue c =
     (if 0x30 \<le> c \<and> c \<le> 0x39 then c - 0x30
      else if 0x61 \<le> c \<and> c \<le> 0x7A then c - 0x61 + 10
      else if 0x41 \<le> c \<and> c \<le> 0x5A then c - 0x41 + 10
      else 36)"

definition parseInt :: "jsstring \<Rightarrow> int option" where
  "parseInt str =
     (let s = dropWhile isWhiteSpace str;
          sign = (if s \<noteq> [] \<and> hd s = 0x2D then - 1 else (1::int));
          s1 = (if s \<noteq> [] \<and> (hd s = 0x2B \<or> hd s = 0x2D) then tl s else s);
          hex = (take 2 s1 = js ''0x'' \<or> take 2 s1 = js ''0X'');
          R = (if hex then 16 else 10);
          s2 = (if hex then drop 2 s1 else s1);
          Z = takeWhile (\<lambda>c. digitValue c < R) s2
      in if Z = [] then None
         else Some (sign * int (foldl (\<lambda>acc c. acc * R + digitValue c) 0 Z)))"

text \<open>\<open>pageNum >= 1 && pageNum <= pages.length\<close>; every comparison with \<open>NaN\<close> is false.\<close>

definition inRange :: "nat \<Rightarrow> int option \<Rightarrow> bool" where
  "inRange n pageNum = (case pageNum of None \<Rightarrow> False | Some k \<Rightarrow> 1 \<le> k \<and> k \<le> int n)"

text \<open>
  The stored annotation object is not validated, so the value of a page key is any JSON
  value: a falsy one (\<open>null\<close>, \<open>0\<close>, \<open>""\<close>, \<open>false\<close>), an array of annotation objects, or
  a truthy value that is not an array (a number, a string, an object).
\<close>

datatype pageValue = Falsy | Array "annotation list" | NotArray

text \<open>
  \<open>const pageAnns = targetAnnotations[pageIndex] || []\<close> followed by
  \<open>pageAnns.forEach(...)\<close>: a value without \<open>forEach\<close> is a TypeError, thrown outside the
  \<open>try\<close> of the annotations.
\<close>

fun pageAnnsOf :: "pageValue \<Rightarrow> error + annotation list" where
  "pageAnnsOf Falsy = Inr []"
| "pageAnnsOf (Array anns) = Inr anns"
| "pageAnnsOf NotArray = Inl TypeError"

text \<open>
  \<open>Object.keys(targetAnnotations).forEach(pageIndex => ...)\<close>. The annotation object is
  the list of its keys, in the order of \<open>Object.keys\<close>, each with its value. An exception
  of the callback ends the loop and leaves the handler's \<open>try\<close>.
\<close>

type_synonym annotations = "(jsstring \<times> pageValue) list"

fun forEachPage :: "'c pdflib \<Rightarrow> annotations \<Rightarrow> 'c page list \<Rightarrow> error + 'c page list" where
  "forEachPage lib [] pages = Inr pages"
| "forEachPage lib ((pageIndex, v) # rest) pages =
     (case parseInt pageIndex of
        None \<Rightarrow> forEachPage lib rest pages
      | Some pageNum \<Rightarrow>
          (if 1 \<le> pageNum \<and> pageNum \<le> int (length pages) then
             (let i = nat (pageNum - 1) in
              case pageAnnsOf v of
                Inl e \<Rightarrow> Inl e
              | Inr pageAnns \<Rightarrow>
                  forEachPage lib rest (pages[i := drawPageAnns lib pageAnns (pages ! i)]))
           else forEachPage lib rest pages))"

text \<open>
  The annotated branch of the handler, between \<open>PDFDocument.load\<close> and \<open>pdfDoc.save\<close>:
  a document that does not load, a font that does not embed and an exception of the key
  loop reach the outer \<open>catch\<close>.
\<close>

definition applyAnnotations ::
  "'c pdflib \<Rightarrow> error + 'c page list \<Rightarrow> error + unit \<Rightarrow> annotations \<Rightarrow> error + 'c page list"
where
  "applyAnnotations lib loaded font targetAnnotations =
     (case loaded of
        Inl e \<Rightarrow> Inl e
      | Inr pages \<Rightarrow>
          (case font of
             Inl e \<Rightarrow> Inl e
           | Inr helveticaFont \<Rightarrow> forEachPage lib targetAnnotations pages))"

section \<open>Vocabulary of the properties\<close>

text \<open>
  \<open>startsWithLabel\<close> says in words what the label pattern tests: the line begins with one
  of the five labels, colon included, compared up to case.
\<close>

definition startsWithCI :: "jsstring \<Rightarrow> jsstring \<Rightarrow> bool" where
  "startsWithCI p s =
     (length p \<le> length s \<and> map canonicalize (take (length p) s) = map canonicalize p)"

definition labelPrefixes :: "jsstring list" where
  "labelPrefixes =
     [mousiki @ js '':'', stichoi @ js '':'', js ''Music:'', js ''Lyrics:'', js ''Composer:'']"

definition startsWithLabel :: "jsstring \<Rightarrow> bool" where
  "startsWithLabel s = list_ex (\<lambda>p. startsWithCI p s) labelPrefixes"

text \<open>
  Dash, underline and bullet characters: hyphen-minus, the hyphens and dashes
  U+2010-2015, the minus sign; low line, double low line, combining low line; middle dot,
  the bullets U+2022, U+2023, U+2043, U+2219 and the circles and bullets of the
  geometric shapes.
\<close>

definition ornamentChars :: "nat list" where
  "ornamentChars =
     [0x002D, 0x2010, 0x2011, 0x2012, 0x2013, 0x2014, 0x2015, 0x2212,
      0x005F, 0x2017, 0x0332,
      0x00B7, 0x2022, 0x2023, 0x2043, 0x2219, 0x25CB, 0x25CF, 0x25D8, 0x25E6]"

definition isOrnament :: "nat \<Rightarrow> bool" where
  "isOrnament c = (c \<in> set ornamentChars)"

text \<open>The canonical forms of the letters of \<open>nameClass\<close>.\<close>

definition isNameLetter :: "nat \<Rightarrow> bool" where
  "isNameLetter x =
     ((0x41 \<le> x \<and> x \<le> 0x5A) \<or> x = 0x386 \<or> (0x388 \<le> x \<and> x \<le> 0x38A) \<or> x = 0x38C
      \<or> (0x38E \<le> x \<and> x \<le> 0x38F) \<or> (0x391 \<le> x \<and> x \<le> 0x3AB) \<or> x = 0x3B0)"

text \<open>A pattern without a capturing group leaves the capture as it finds it.\<close>

fun nogroup :: "regex \<Rightarrow> bool" where
  "nogroup (Seq a b) = (nogroup a \<and> nogroup b)"
| "nogroup (Alt a b) = (nogroup a \<and> nogroup b)"
| "nogroup (Group a) = False"
| "nogroup r = True"

definition allp :: "(nat \<Rightarrow> bool) \<Rightarrow> jsstring \<Rightarrow> (nat \<times> nat) option \<Rightarrow> bool" where
  "allp p s c = (case c of None \<Rightarrow> False | Some (a, b) \<Rightarrow> list_all p (take (b - a) (drop a s)))"

subsection \<open>Sample inputs\<close>

definition symphonyTitle :: jsstring where
  "symphonyTitle = js ''Symphony No. 5''"

definition symphonyLine2 :: jsstring where
  "symphonyLine2 = js ''Ludwig van Beethoven''"

definition symphonyLine3 :: jsstring where
  "symphonyLine3 = js ''Music: L. Beethoven''"

definition exSymphony :: jsstring where
  "exSymphony = symphonyTitle @ [0x0A] @ symphonyLine2 @ [0x0A] @ symphonyLine3"

definition lyricsLine :: jsstring where
  "lyricsLine = stichoi @ js '': Nikos''"

definition musicLine :: jsstring where
  "musicLine = mousiki @ js '': Manos''"

definition blankMusicLine :: jsstring where
  "blankMusicLine = mousiki @ js '':  '' @ stichoi @ js '': foo''"

definition exBlank :: jsstring where
  "exBlank = lyricsLine @ [0x0A] @ blankMusicLine"

definition exBoth :: jsstring where
  "exBoth = lyricsLine @ [0x0A] @ musicLine"

definition ornamentLine :: jsstring where
  "ornamentLine = [0x2D, 0x2D, 0x5F, 0x2022]"

definition exOrnament :: jsstring where
  "exOrnament = js ''Aria'' @ [0x0A] @ ornamentLine"

subsection \<open>Drawing\<close>

text \<open>
  The point of the page that a normalized point stands for, with the vertical flip, and
  the segments that join each point of a list to the next.
\<close>

definition absPoint :: "'c page \<Rightarrow> point \<Rightarrow> real \<times> real" where
  "absPoint pg p = (p_x p * page_width pg, page_height pg - p_y p * page_height pg)"

definition segments :: "'c \<Rightarrow> real \<Rightarrow> real \<Rightarrow> (real \<times> real) list \<Rightarrow> 'c lineOptions list" where
  "segments c thickness opacity pts =
     map (\<lambda>(a, b). \<lparr>l_start = a, l_end = b, l_thickness = thickness, l_color = c,
                      l_opacity = opacity\<rparr>) (zip pts (tl pts))"

text \<open>The default colours of the handler: strokes are yellow, text is black.\<close>

definition yellow :: json where "yellow = JObject (Some 1) (Some 1) (Some 0)"

definition black :: json where "black = JObject (Some 0) (Some 0) (Some 0)"

text \<open>The options with which a path and a text annotation are to be drawn.\<close>

definition pathSegments :: "annotation \<Rightarrow> 'c \<Rightarrow> 'c page \<Rightarrow> point list \<Rightarrow> 'c lineOptions list" where
  "pathSegments ann c pg ps =
     segments c (orDefault (ann_strokeWidth ann) 5)
       (case ann_opacity ann of None \<Rightarrow> 0.5 | Some v \<Rightarrow> v) (map (absPoint pg) ps)"

definition fontSizeOf :: "annotation \<Rightarrow> real" where
  "fontSizeOf ann = orDefault (ann_size ann) 12"

definition textOptionsOf :: "annotation \<Rightarrow> 'c \<Rightarrow> 'c page \<Rightarrow> 'c textOptions" where
  "textOptionsOf ann c pg =
     \<lparr>t_x = ann_x ann * page_width pg,
      t_y = page_height pg - ann_y ann * page_height pg - (fontSizeOf ann - 2),
      t_size = fontSizeOf ann, t_color = c\<rparr>"




text \<open>
  A sample library: \<open>JSON.parse\<close> knows the text \<open>null\<close>, \<open>rgb\<close> wants three numbers
  between 0 and 1, every drawing call is accepted. A page of 100 by 200 and four
  annotations.
\<close>

definition sampleLib :: "(real \<times> real \<times> real) pdflib" where
  "sampleLib =
     \<lparr>JSON_parse = (\<lambda>s. if s = js ''null'' then JNull else JSyntaxError),
      rgb = (\<lambda>r g b. case (r, g, b) of
               (Some r', Some g', Some b') \<Rightarrow>
                 if 0 \<le> r' \<and> r' \<le> 1 \<and> 0 \<le> g' \<and> g' \<le> 1 \<and> 0 \<le> b' \<and> b' \<le> 1
                 then Some (r', g', b') else None
             | _ \<Rightarrow> None),
      lineOk = (\<lambda>opts. True),
      textOk = (\<lambda>s opts. True)\<rparr>"

definition samplePage :: "(real \<times> real \<times> real) page" where
  "samplePage = \<lparr>page_width = 100, page_height = 200, page_content = []\<rparr>"

definition samplePath :: annotation where
  "samplePath =
     \<lparr>ann_type = js ''path'',
      ann_points = Some [\<lparr>p_x = 0, p_y = 0\<rparr>, \<lparr>p_x = 1/2, p_y = 1/2\<rparr>, \<lparr>p_x = 1, p_y = 1\<rparr>],
      ann_color = None, ann_opacity = None, ann_strokeWidth = None, ann_text = None,
      ann_x = 0, ann_y = 0, ann_size = None\<rparr>"

definition singlePoint :: annotation where
  "singlePoint = samplePath\<lparr>ann_points := Some [\<lparr>p_x = 0, p_y = 0\<rparr>]\<rparr>"

definition sampleText :: annotation where
  "sampleText =
     \<lparr>ann_type = js ''text'', ann_points = None, ann_color = None, ann_opacity = None,
      ann_strokeWidth = None, ann_text = Some (js ''Hi''), ann_x = 0, ann_y = 0,
      ann_size = None\<rparr>"

definition nullColourText :: annotation where
  "nullColourText = sampleText\<lparr>ann_color := Some (js ''null'')\<rparr>"

section \<open>Facts about strings and the matcher\<close>

lemma js_Nil: "js [] = []" and js_Cons: "js (c # cs) = of_char c # js cs"
  by (simp_all add: js_def)

lemma js_snoc: "js (w @ [c]) = js w @ [of_char c]"
  by (simp add: js_def)

lemma set_trim: "set (trim s) \<subseteq> set s"
  by (auto simp: trim_def dest!: set_dropWhileD)

lemma isWhiteSpace_eval:
  "isWhiteSpace c \<longleftrightarrow>
     c \<in> set [0x0009, 0x000A, 0x000B, 0x000C, 0x000D, 0x0020, 0x00A0, 0x1680,
      0x2000, 0x2001, 0x2002, 0x2003, 0x2004, 0x2005, 0x2006, 0x2007, 0x2008, 0x2009, 0x200A,
      0x2028, 0x2029, 0x202F, 0x205F, 0x3000, 0xFEFF]"
  by (simp only: isWhiteSpace_def whiteSpace_def)

subsection \<open>Searching\<close>

lemma search_none: "(\<And>i. i \<in> set is \<Longrightarrow> ms r s (i, None) = []) \<Longrightarrow> search r s is = None"
  by (induction "is") simp_all

lemma search_Some: "search r s is = Some m \<Longrightarrow> \<exists>i. m \<in> set (ms r s (i, None))"
proof (induction "is")
  case Nil
  then show ?case by simp
next
  case (Cons i "is")
  show ?case
  proof (cases "ms r s (i, None)")
    case Nil
    with Cons show ?thesis by simp
  next
    case (Cons m' rest)
    with Cons.prems have "m = m'" by simp
    with Cons have "m \<in> set (ms r s (i, None))" by simp
    then show ?thesis ..
  qed
qed

lemma match_Some: "match r s = Some m \<Longrightarrow> \<exists>i. m \<in> set (ms r s (i, None))"
  unfolding match_def by (rule search_Some)

lemma match_at_0: "ms r s (0, None) = m # rest \<Longrightarrow> match r s = Some m"
proof -
  assume a: "ms r s (0, None) = m # rest"
  have u: "[0..<Suc (length s)] = 0 # [Suc 0..<Suc (length s)]"
    by (rule upt_conv_Cons) simp
  show ?thesis unfolding match_def u using a by simp
qed

lemma ms_first_sym: "\<forall>c\<in>set s. \<not> p c \<Longrightarrow> ms (Seq (Seq (Sym p) a) b) s (i, c0) = []"
  using nth_mem by fastforce

lemma match_first_sym: "\<forall>c\<in>set s. \<not> p c \<Longrightarrow> match (Seq (Seq (Sym p) a) b) s = None"
  unfolding match_def by (rule search_none) (rule ms_first_sym)

lemma musicRe_needs_mu: "\<forall>c\<in>set s. \<not> ci 0x039C c \<Longrightarrow> match musicRe s = None"
  unfolding musicRe_def mousiki_def lit_ci.simps by (rule match_first_sym)

lemma lyricsRe_needs_sigma: "\<forall>c\<in>set s. \<not> ci 0x03A3 c \<Longrightarrow> match lyricsRe s = None"
  unfolding lyricsRe_def stichoi_def lit_ci.simps by (rule match_first_sym)

lemma search_bol: "0 \<notin> set is \<Longrightarrow> search (Seq Bol r) s is = None"
  by (induction "is") auto

lemma match_bol:
  "match (Seq Bol r) s = (case ms r s (0, None) of [] \<Rightarrow> None | m # _ \<Rightarrow> Some m)"
proof -
  have u: "[0..<Suc (length s)] = 0 # [Suc 0..<Suc (length s)]"
    by (rule upt_conv_Cons) simp
  have "search (Seq Bol r) s [Suc 0..<Suc (length s)] = None"
    by (rule search_bol) (simp del: upt_Suc)
  then show ?thesis
    unfolding match_def u by (simp del: upt_Suc split: list.splits)
qed

subsection \<open>Literals and the label pattern\<close>

lemma ms_lit:
  "i \<le> length s \<Longrightarrow>
   ms (lit_ci w) s (i, c) =
     (if i + length w \<le> length s \<and>
         map canonicalize (take (length w) (drop i s)) = map canonicalize w
      then [(i + length w, c)] else [])"
proof (induction w arbitrary: i)
  case Nil
  then show ?case by simp
next
  case (Cons p ps)
  show ?case
  proof (cases "i < length s")
    case True
    then have d: "drop i s = s ! i # drop (Suc i) s"
      by (simp add: Cons_nth_drop_Suc)
    from True have "Suc i \<le> length s" by simp
    from Cons.IH[OF this] d show ?thesis
      by (auto simp: ci_def)
  next
    case False
    then show ?thesis by simp
  qed
qed

lemma ms_lit0:
  "ms (lit_ci w) s (0, c) = (if startsWithCI w s then [(length w, c)] else [])"
  using ms_lit[of 0 s w c] by (simp add: startsWithCI_def)

lemma startsWithCI_snoc:
  "startsWithCI (w @ [x]) s \<longleftrightarrow>
     startsWithCI w s \<and> length w < length s \<and> canonicalize (s ! length w) = canonicalize x"
proof (cases "length w < length s")
  case True
  then have "take (Suc (length w)) s = take (length w) s @ [s ! length w]"
    by (simp add: take_Suc_conv_app_nth)
  with True show ?thesis by (auto simp: startsWithCI_def)
next
  case False
  then show ?thesis by (auto simp: startsWithCI_def)
qed

lemma labelRe_startsWithLabel: "match labelRe s \<noteq> None \<longleftrightarrow> startsWithLabel s"
proof -
  have p: "labelPrefixes =
      [mousiki @ [0x3A], stichoi @ [0x3A], js ''Music'' @ [0x3A], js ''Lyrics'' @ [0x3A],
       js ''Composer'' @ [0x3A]]"
    by (simp add: labelPrefixes_def js_def)
  show ?thesis
    unfolding labelRe_def match_bol startsWithLabel_def p
    by (simp add: ms_lit0 startsWithCI_snoc ci_def split: list.splits) 
qed

subsection \<open>The captured name\<close>

lemma ms_nogroup: "nogroup r \<Longrightarrow> (j, c') \<in> set (ms r s (i, c)) \<Longrightarrow> c' = c"
proof (induction r arbitrary: i c j c')
  case (Seq a b)
  from Seq.prems(2) obtain k d where 1: "(k, d) \<in> set (ms a s (i, c))"
    and 2: "(j, c') \<in> set (ms b s (k, d))" by auto
  from Seq.IH(1)[OF _ 1] Seq.prems(1) have "d = c" by simp
  with Seq.IH(2)[OF _ 2] Seq.prems(1) show ?case by simp
next
  case (Alt a b)
  then show ?case by auto
qed (auto split: if_splits)

lemma nogroup_lit [simp]: "nogroup (lit_ci w)"
  by (induction w) auto

lemma take_run: "n \<le> run p s i \<Longrightarrow> list_all p (take n (drop i s))"
proof -
  assume "n \<le> run p s i"
  then have "take n (drop i s) = take n (takeWhile p (drop i s))"
    unfolding run_def
    by (metis takeWhile_eq_take take_take min.absorb1 min.commute)
  moreover have "list_all p (takeWhile p (drop i s))"
    by (simp add: list_all_iff) (meson set_takeWhileD)
  ultimately show ?thesis
    by (metis list_all_iff in_set_takeD)
qed

lemma ms_group_lazy:
  "(j, c') \<in> set (ms (Group (PlusLazy p)) s (i, c)) \<Longrightarrow> allp p s c'"
  by (auto simp: allp_def take_run)

lemma ms_labelled:
  assumes "nogroup a" "nogroup b" "nogroup t"
    and "(j, c') \<in> set (ms (Seq a (Seq b (Seq (Group (PlusLazy p)) t))) s (i, c))"
  shows "allp p s c'"
proof -
  from assms(4) obtain st1 st2 st3 where
    "st3 \<in> set (ms (Group (PlusLazy p)) s st2)" "(j, c') \<in> set (ms t s st3)"
    by auto
  then show ?thesis
    using ms_group_lazy[of "fst st3" "snd st3" p s "fst st2" "snd st2"]
      ms_nogroup[OF assms(3), of j c' s "fst st3" "snd st3"] by simp
qed

lemma group1_allp: "allp p s (snd m) \<Longrightarrow> \<exists>g. group1 s m = Some g \<and> list_all p g"
  by (cases m) (auto simp: allp_def split: option.splits)

lemma musicRe_group:
  assumes "match musicRe s = Some m"
  shows "\<exists>g. group1 s m = Some g \<and> list_all (cls_ci nameClass) g"
proof -
  from match_Some[OF assms] obtain i where "m \<in> set (ms musicRe s (i, None))" ..
  then have mem: "(fst m, snd m) \<in> set (ms musicRe s (i, None))" by simp
  have "allp (cls_ci nameClass) s (snd m)"
    by (rule ms_labelled[OF _ _ _ mem[unfolded musicRe_def]]) simp_all
  then show ?thesis by (rule group1_allp)
qed

lemma lyricsRe_group:
  assumes "match lyricsRe s = Some m"
  shows "\<exists>g. group1 s m = Some g \<and> list_all (cls_ci nameClass) g"
proof -
  from match_Some[OF assms] obtain i where "m \<in> set (ms lyricsRe s (i, None))" ..
  then have mem: "(fst m, snd m) \<in> set (ms lyricsRe s (i, None))" by simp
  have "allp (cls_ci nameClass) s (snd m)"
    by (rule ms_labelled[OF _ _ _ mem[unfolded lyricsRe_def]]) simp_all
  then show ?thesis by (rule group1_allp)
qed

subsection \<open>Canonical forms of the classes\<close>

lemma canon_upt: "map canonicalize [0x0391..<0x03AA] = [0x0391..<0x03AA]"
  by (simp add: canonicalize_def)

lemma canon_upt2: "map canonicalize [0x03B1..<0x03CA] = [0x391..<0x3A2] @ [0x3A3] @ [0x3A3..<0x3AA]"
  by (simp add: canonicalize_def)

lemma canon_upt3: "map canonicalize [0x03AC..<0x03CF] = [0x386, 0x388, 0x389, 0x38A, 0x3B0] @ [0x391..<0x3A2] @ [0x3A3] @ [0x3A3..<0x3AC] @ [0x38C, 0x38E, 0x38F]"
  by (simp add: canonicalize_def)

lemma canon_upt4: "map canonicalize [0x41..<0x5B] = [0x41..<0x5B]"
  by (simp add: canonicalize_def)

lemma canon_upt5: "map canonicalize [0x61..<0x7B] = [0x41..<0x5B]"
  by (simp add: canonicalize_def)

lemma canon_ws: "map canonicalize whiteSpace = whiteSpace"
  by (simp add: canonicalize_def whiteSpace_def)

lemma name_canon_set: "x \<in> set ([0x0391..<0x03AA] @ ([0x391..<0x3A2] @ [0x3A3] @ [0x3A3..<0x3AA]) @
     ([0x386, 0x388, 0x389, 0x38A, 0x3B0] @ [0x391..<0x3A2] @ [0x3A3] @ [0x3A3..<0x3AC] @ [0x38C, 0x38E, 0x38F])
     @ [0x41..<0x5B] @ [0x41..<0x5B]) \<longleftrightarrow> isNameLetter x"
  unfolding set_append set_upt isNameLetter_def
  apply (simp del: upt_rec_numeral)
  apply arith
  done

lemma cls_name: "cls_ci nameClass c = (isNameLetter (canonicalize c) \<or> isWhiteSpace (canonicalize c))"
proof -
  have "map canonicalize nameClass = ([0x0391..<0x03AA] @ ([0x391..<0x3A2] @ [0x3A3] @ [0x3A3..<0x3AA]) @
     ([0x386, 0x388, 0x389, 0x38A, 0x3B0] @ [0x391..<0x3A2] @ [0x3A3] @ [0x3A3..<0x3AC] @ [0x38C, 0x38E, 0x38F])
     @ [0x41..<0x5B] @ [0x41..<0x5B]) @ whiteSpace"
    unfolding nameClass_def map_append canon_upt canon_upt2 canon_upt3 canon_upt4 canon_upt5 canon_ws
    by (simp only: append_assoc)
  then show ?thesis
    unfolding cls_ci_def isWhiteSpace_def using name_canon_set[of "canonicalize c"]
    by (simp only: set_append Un_iff)
qed

lemma cls_ws: "cls_ci whiteSpace c = isWhiteSpace (canonicalize c)"
  unfolding cls_ci_def canon_ws isWhiteSpace_def ..

lemma cls_sep: "cls_ci (0x3A # whiteSpace) c = (canonicalize c = 0x3A \<or> isWhiteSpace (canonicalize c))"
  unfolding cls_ci_def list.map canon_ws isWhiteSpace_def by (simp add: canonicalize_def)

lemmas ev = js_Nil js_Cons mousiki_def stichoi_def ci_def canonicalize_def run_def
  cls_ws cls_sep cls_name isNameLetter_def isWhiteSpace_eval

lemmas cl = isCleanLine_def isGreekLetter_def isLatinLetter_def isNoiseChar_def noiseList_def

section \<open>The loops of the extractor\<close>

lemma find_title_label:
  "find_title ls =
     (case List.find (\<lambda>l. isCleanLine l \<and> \<not> startsWithLabel l \<and> length l \<ge> 4) ls of
        None \<Rightarrow> [] | Some l \<Rightarrow> l)"
  by (induction ls) (simp_all add: labelRe_startsWithLabel[symmetric])

lemma find_title_clean: "find_title ls = [] \<or> isCleanLine (find_title ls)"
  by (induction ls) auto

lemma positional_True:
  "positional t ls True =
     (case List.find (\<lambda>l. l \<noteq> t \<and> length l \<ge> 3) (filter isCleanLine ls) of
        None \<Rightarrow> [] | Some l \<Rightarrow> l)"
  by (induction ls) auto

lemma positional_False:
  "positional t ls False =
     (case List.find (\<lambda>l. l \<noteq> t \<and> length l \<ge> 3) (drop 1 (filter isCleanLine ls)) of
        None \<Rightarrow> [] | Some l \<Rightarrow> l)"
  by (induction ls) (auto simp: positional_True)

lemma positional_clean: "positional t ls f = [] \<or> isCleanLine (positional t ls f)"
  by (induction ls arbitrary: f) auto

lemma label_scan_Inr: "\<exists>c. label_scan ls c0 = Inr c"
proof (induction ls arbitrary: c0)
  case Nil
  show ?case by simp
next
  case (Cons l ls)
  show ?case
  proof (cases "match musicRe l")
    case (Some m)
    with musicRe_group[OF Some] show ?thesis by auto
  next
    case None
    show ?thesis
    proof (cases "match lyricsRe l")
      case (Some m)
      with lyricsRe_group[OF Some] None Cons.IH show ?thesis by auto
    next
      case N2: None
      with None Cons.IH show ?thesis by simp
    qed
  qed
qed

lemma label_scan_chars:
  "label_scan ls c0 = Inr c \<Longrightarrow> c = c0 \<or> list_all (cls_ci nameClass) c"
proof (induction ls arbitrary: c0)
  case Nil
  then show ?case by simp
next
  case (Cons l ls)
  show ?case
  proof (cases "match musicRe l")
    case (Some m)
    from musicRe_group[OF Some] obtain g where g: "group1 l m = Some g" "list_all (cls_ci nameClass) g"
      by blast
    with Some Cons.prems have "c = trim g" by simp
    with g(2) set_trim[of g] show ?thesis by (auto simp: list_all_iff)
  next
    case None
    show ?thesis
    proof (cases "match lyricsRe l")
      case (Some m)
      from lyricsRe_group[OF Some] obtain g where g: "group1 l m = Some g" "list_all (cls_ci nameClass) g"
        by blast
      show ?thesis
      proof (cases "c0 = []")
        case True
        with Some None g Cons.prems have "label_scan ls (trim g) = Inr c" by simp
        from Cons.IH[OF this] g(2) set_trim[of g] show ?thesis by (auto simp: list_all_iff)
      next
        case False
        with Some None Cons.prems have "label_scan ls c0 = Inr c" by simp
        from Cons.IH[OF this] show ?thesis .
      qed
    next
      case N2: None
      with None Cons.prems have "label_scan ls c0 = Inr c" by simp
      from Cons.IH[OF this] show ?thesis .
    qed
  qed
qed

lemma label_scan_first_music:
  assumes "\<forall>l\<in>set pre. match musicRe l = None"
    and "match musicRe line = Some m" and "group1 line m = Some g"
  shows "label_scan (pre @ line # post) c0 = Inr (trim g)"
  using assms(1)
proof (induction pre arbitrary: c0)
  case Nil
  with assms(2,3) show ?case by simp
next
  case (Cons l pre)
  then have n: "match musicRe l = None" and ih: "\<And>c. label_scan (pre @ line # post) c = Inr (trim g)"
    by auto
  show ?case
  proof (cases "match lyricsRe l")
    case (Some m')
    from lyricsRe_group[OF Some] obtain g' where "group1 l m' = Some g'" by blast
    with Some n ih show ?thesis by simp
  next
    case None
    with n ih show ?thesis by simp
  qed
qed

lemma textLines_nonempty: "l \<in> set (textLines raw) \<Longrightarrow> l \<noteq> []"
  by (auto simp: textLines_def)

lemma processSmartMetadata_lines:
  assumes "textLines raw \<noteq> []" and "label_scan (textLines raw) [] = Inr c"
  shows "processSmartMetadata \<lparr>ocr_text = Some raw\<rparr> =
     Inr \<lparr>title = find_title (textLines raw),
          composer = (if c = [] then positional (find_title (textLines raw)) (textLines raw) False else c),
          rawText = raw\<rparr>"
  using assms by (simp add: processSmartMetadata_def Let_def)

lemma processSmartMetadata_nolines:
  assumes "textLines raw = []"
  shows "processSmartMetadata \<lparr>ocr_text = Some raw\<rparr> = Inr \<lparr>title = [], composer = [], rawText = []\<rparr>"
  using assms by (simp add: processSmartMetadata_def Let_def)

subsection \<open>Lines of ornaments\<close>

lemma ornament_not_name: "isOrnament c \<Longrightarrow> \<not> cls_ci nameClass c"
  unfolding isOrnament_def ornamentChars_def cls_name
  apply (simp only: set_simps insert_iff empty_iff)
  apply (elim disjE)
  apply (simp_all add: canonicalize_def isNameLetter_def isWhiteSpace_def whiteSpace_def)
  done

lemma ornament_not_letter: "isOrnament c \<Longrightarrow> \<not> isGreekLetter c \<and> \<not> isLatinLetter c"
  unfolding isOrnament_def ornamentChars_def
  by (auto simp: isGreekLetter_def isLatinLetter_def)

lemma ornament_line_not_clean:
  assumes "\<forall>c\<in>set l. isOrnament c"
  shows "\<not> isCleanLine l"
proof -
  from assms have "filter isGreekLetter l = []" "filter isLatinLetter l = []"
    using ornament_not_letter by (auto simp: filter_empty_conv)
  then show ?thesis by (simp add: isCleanLine_def)
qed

section \<open>The sample inputs\<close>

lemmas sym = symphonyTitle_def symphonyLine2_def symphonyLine3_def js_Nil js_Cons

lemma lines_symphony: "textLines exSymphony = [symphonyTitle, symphonyLine2, symphonyLine3]"
  unfolding exSymphony_def
  by (simp add: textLines_def sym trim_def isWhiteSpace_eval)

lemma clean_symphony: "isCleanLine symphonyTitle" "isCleanLine symphonyLine2"
  by (simp_all add: sym cl)

lemma nolabel_symphony: "match labelRe symphonyTitle = None"
  unfolding labelRe_def match_bol
  by (simp add: sym mousiki_def stichoi_def ci_def canonicalize_def)

lemma nomusic_symphony:
  "match musicRe symphonyTitle = None" "match musicRe symphonyLine2 = None"
  "match musicRe symphonyLine3 = None"
  by (rule musicRe_needs_mu, simp add: sym ci_def canonicalize_def)+

lemma nolyrics_symphony:
  "match lyricsRe symphonyTitle = None" "match lyricsRe symphonyLine2 = None"
  "match lyricsRe symphonyLine3 = None"
  by (rule lyricsRe_needs_sigma, simp add: sym ci_def canonicalize_def)+

lemma scan_symphony: "label_scan [symphonyTitle, symphonyLine2, symphonyLine3] [] = Inr []"
  by (simp add: nomusic_symphony nolyrics_symphony)

lemma title_symphony: "find_title [symphonyTitle, symphonyLine2, symphonyLine3] = symphonyTitle"
proof -
  have "4 \<le> length symphonyTitle" by (simp add: sym)
  then show ?thesis by (simp add: clean_symphony nolabel_symphony)
qed

lemma pos_symphony:
  "positional symphonyTitle [symphonyTitle, symphonyLine2, symphonyLine3] False = symphonyLine2"
proof -
  have "symphonyLine2 \<noteq> symphonyTitle" "3 \<le> length symphonyLine2" by (simp_all add: sym)
  then show ?thesis by (simp add: clean_symphony)
qed

lemma symphony_result:
  "processSmartMetadata \<lparr>ocr_text = Some exSymphony\<rparr> =
     Inr \<lparr>title = symphonyTitle, composer = symphonyLine2, rawText = exSymphony\<rparr>"
proof -
  have ne: "textLines exSymphony \<noteq> []" unfolding lines_symphony by simp
  have sc: "label_scan (textLines exSymphony) [] = Inr []"
    unfolding lines_symphony by (rule scan_symphony)
  show ?thesis
    using processSmartMetadata_lines[OF ne sc, unfolded lines_symphony title_symphony pos_symphony]
    by simp
qed

lemma lyricsLine_val: "lyricsLine = [0x3A3, 0x3C4, 0x3AF, 0x3C7, 0x3BF, 0x3B9, 0x3A, 0x20, 0x4E, 0x69, 0x6B, 0x6F, 0x73]"
  by (simp add: lyricsLine_def stichoi_def js_Nil js_Cons)

lemma blank_val: "blankMusicLine = [0x39C, 0x3BF, 0x3C5, 0x3C3, 0x3B9, 0x3BA, 0x3AE, 0x3A, 0x20, 0x20,
   0x3A3, 0x3C4, 0x3AF, 0x3C7, 0x3BF, 0x3B9, 0x3A, 0x20, 0x66, 0x6F, 0x6F]"
  by (simp add: blankMusicLine_def mousiki_def stichoi_def js_Nil js_Cons)

lemma musicLine_val: "musicLine = [0x39C, 0x3BF, 0x3C5, 0x3C3, 0x3B9, 0x3BA, 0x3AE, 0x3A, 0x20, 0x4D, 0x61, 0x6E, 0x6F, 0x73]"
  by (simp add: musicLine_def mousiki_def js_Nil js_Cons)

lemma ms_lyrics_lyricsLine: "ms lyricsRe lyricsLine (0, None) = [(13, Some (8, 13)), (13, Some (7, 13))]"
  unfolding lyricsLine_val lyricsRe_def
  by (simp add: ev)

lemma ms_music_blank: "ms musicRe blankMusicLine (0, None) = [(16, Some (8, 9))]"
  unfolding blank_val musicRe_def
  by (simp add: ev)

lemma ms_music_musicLine: "ms musicRe musicLine (0, None) = [(14, Some (9, 14)), (14, Some (8, 14))]"
  unfolding musicLine_val musicRe_def
  by (simp add: ev)

lemma match_music_blank: "match musicRe blankMusicLine = Some (16, Some (8, 9))"
  using ms_music_blank by (rule match_at_0)

lemma match_lyrics_lyricsLine: "match lyricsRe lyricsLine = Some (13, Some (8, 13))"
  using ms_lyrics_lyricsLine by (rule match_at_0)

lemma match_music_musicLine: "match musicRe musicLine = Some (14, Some (9, 14))"
  using ms_music_musicLine by (rule match_at_0)

lemma match_music_lyricsLine: "match musicRe lyricsLine = None"
  by (rule musicRe_needs_mu) (simp add: lyricsLine_val ci_def canonicalize_def)

lemma group1_blank: "group1 blankMusicLine (16, Some (8, 9)) = Some [0x20]"
  by (simp add: blank_val)

lemma group1_lyricsLine: "group1 lyricsLine (13, Some (8, 13)) = Some (js ''Nikos'')"
  by (simp add: lyricsLine_val js_Nil js_Cons)

lemma group1_musicLine: "group1 musicLine (14, Some (9, 14)) = Some (js ''Manos'')"
  by (simp add: musicLine_val js_Nil js_Cons)

lemma trim_blank: "trim [0x20] = []"
  by (simp add: trim_def isWhiteSpace_eval)

lemma trim_Nikos: "trim (js ''Nikos'') = js ''Nikos''"
  by (simp add: trim_def isWhiteSpace_eval js_Nil js_Cons)

lemma trim_Manos: "trim (js ''Manos'') = js ''Manos''"
  by (simp add: trim_def isWhiteSpace_eval js_Nil js_Cons)

lemma lines_counter: "textLines exBlank = [lyricsLine, blankMusicLine]"
  unfolding exBlank_def lyricsLine_val blank_val
  by (simp add: textLines_def trim_def isWhiteSpace_eval)

lemma lines_wit: "textLines exBoth = [lyricsLine, musicLine]"
  unfolding exBoth_def lyricsLine_val musicLine_val
  by (simp add: textLines_def trim_def isWhiteSpace_eval)

lemma scan_counter: "label_scan [lyricsLine, blankMusicLine] [] = Inr []"
  by (simp add: match_music_lyricsLine match_lyrics_lyricsLine group1_lyricsLine trim_Nikos
      match_music_blank group1_blank trim_blank del: group1.simps)

lemma clean_lyricsLine: "isCleanLine lyricsLine"
  unfolding lyricsLine_val by (simp add: cl)

lemma clean_blank: "isCleanLine blankMusicLine"
  unfolding blank_val by (simp add: cl)

lemma label_lyricsLine: "match labelRe lyricsLine \<noteq> None"
  unfolding labelRe_startsWithLabel startsWithLabel_def labelPrefixes_def lyricsLine_val
  by (simp add: startsWithCI_def stichoi_def mousiki_def js_Nil js_Cons canonicalize_def)

lemma label_blank: "match labelRe blankMusicLine \<noteq> None"
  unfolding labelRe_startsWithLabel startsWithLabel_def labelPrefixes_def blank_val
  by (simp add: startsWithCI_def stichoi_def mousiki_def js_Nil js_Cons canonicalize_def)

lemma title_counter: "find_title [lyricsLine, blankMusicLine] = []"
  using label_lyricsLine label_blank by (simp add: clean_lyricsLine clean_blank)

lemma blank_ne: "blankMusicLine \<noteq> []" "3 \<le> length blankMusicLine"
  by (simp_all add: blank_val)

lemma pos_counter: "positional [] [lyricsLine, blankMusicLine] False = blankMusicLine"
  by (simp add: clean_lyricsLine clean_blank blank_ne)

lemma lines_ornament: "textLines exOrnament = [js ''Aria'', ornamentLine]"
  unfolding exOrnament_def ornamentLine_def
  by (simp add: textLines_def js_Nil js_Cons trim_def isWhiteSpace_eval)

section \<open>Properties of the extractor\<close>

text \<open>
  Claim C1. On the three lines \<open>Symphony No. 5\<close>, \<open>Ludwig van Beethoven\<close>,
  \<open>Music: L. Beethoven\<close> the extractor returns the title \<open>Symphony No. 5\<close> and a composer
  containing \<open>Beethoven\<close>: no line holds the Greek label, so the positional fallback
  takes the second line.
\<close>

theorem symphony_example:
  "processSmartMetadata
     \<lparr>ocr_text = Some (js ''Symphony No. 5'' @ [0x0A] @ js ''Ludwig van Beethoven'' @ [0x0A]
                        @ js ''Music: L. Beethoven'')\<rparr> =
     Inr \<lparr>title = js ''Symphony No. 5'',
          composer = js ''Ludwig van '' @ js ''Beethoven'',
          rawText = js ''Symphony No. 5'' @ [0x0A] @ js ''Ludwig van Beethoven'' @ [0x0A]
                        @ js ''Music: L. Beethoven''\<rparr>"
proof -
  have "js ''Ludwig van '' @ js ''Beethoven'' = symphonyLine2" by (simp add: sym)
  then show ?thesis
    using symphony_result unfolding exSymphony_def symphonyTitle_def symphonyLine2_def symphonyLine3_def
    by (simp only:)
qed

text \<open>
  Claim C2. For every input the title is the first of the trimmed non-empty lines that is
  clean, does not start (up to case) with one of the five labels and has at least four
  code units; it is empty when there is no such line.
\<close>

theorem title_is_first_candidate:
  "\<exists>r. processSmartMetadata \<lparr>ocr_text = Some raw\<rparr> = Inr r \<and>
       title r = (case List.find (\<lambda>l. isCleanLine l \<and> \<not> startsWithLabel l \<and> length l \<ge> 4) (textLines raw) of
                    None \<Rightarrow> [] | Some l \<Rightarrow> l)"
proof (cases "textLines raw = []")
  case True
  with processSmartMetadata_nolines[OF True] show ?thesis by simp
next
  case False
  obtain c where "label_scan (textLines raw) [] = Inr c" using label_scan_Inr by blast
  from processSmartMetadata_lines[OF False this] show ?thesis
    by (simp add: find_title_label)
qed

text \<open>
  Claim C3. When the labelled scan leaves the composer empty, the composer is found among
  the clean lines in order: the first clean line is skipped, and the next one that differs
  from the title and has at least three code units is taken; it is empty when there is
  none.
\<close>

theorem positional_fallback_composer:
  assumes "label_scan (textLines raw) [] = Inr []"
  shows "\<exists>r. processSmartMetadata \<lparr>ocr_text = Some raw\<rparr> = Inr r \<and>
       composer r = (case List.find (\<lambda>l. l \<noteq> title r \<and> length l \<ge> 3) (drop 1 (filter isCleanLine (textLines raw))) of
                    None \<Rightarrow> [] | Some l \<Rightarrow> l)"
proof (cases "textLines raw = []")
  case True
  with processSmartMetadata_nolines[OF True] show ?thesis by simp
next
  case False
  from processSmartMetadata_lines[OF False assms] show ?thesis
    by (simp add: positional_False)
qed

theorem positional_fallback_composer_witness:
  "label_scan (textLines exSymphony) [] = Inr [] \<and>
   (\<exists>r. processSmartMetadata \<lparr>ocr_text = Some exSymphony\<rparr> = Inr r \<and>
        composer r =
          (case List.find (\<lambda>l. l \<noteq> title r \<and> length l \<ge> 3)
                  (drop 1 (filter isCleanLine (textLines exSymphony))) of
             None \<Rightarrow> [] | Some l \<Rightarrow> l) \<and>
        composer r = symphonyLine2)"
proof -
  have sc: "label_scan (textLines exSymphony) [] = Inr []"
    unfolding lines_symphony by (rule scan_symphony)
  from positional_fallback_composer[OF sc] sc symphony_result show ?thesis by auto
qed

text \<open>
  Claim C8. A line made of dash, bullet and underline characters only is not clean, and
  for an input that contains such a line neither the title nor the composer is that
  line.
\<close>

theorem ornament_line_never_selected:
  assumes "l \<in> set (textLines raw)" and "\<forall>c\<in>set l. isOrnament c"
  shows "\<not> isCleanLine l \<and>
         (\<exists>r. processSmartMetadata \<lparr>ocr_text = Some raw\<rparr> = Inr r \<and> title r \<noteq> l \<and> composer r \<noteq> l)"
proof -
  let ?ls = "textLines raw"
  have nc: "\<not> isCleanLine l" using assms(2) by (rule ornament_line_not_clean)
  have ne: "l \<noteq> []" using assms(1) by (rule textLines_nonempty)
  from assms(1) have ls: "?ls \<noteq> []" by auto
  obtain c where c: "label_scan ?ls [] = Inr c" using label_scan_Inr by blast
  have t: "find_title ?ls \<noteq> l" using find_title_clean[of ?ls] nc ne by auto
  have p: "positional (find_title ?ls) ?ls False \<noteq> l"
    using positional_clean[of "find_title ?ls" ?ls False] nc ne by auto
  have "c \<noteq> l" if "c \<noteq> []"
  proof
    assume "c = l"
    from label_scan_chars[OF c] that have "list_all (cls_ci nameClass) c" by simp
    moreover from that obtain x where "x \<in> set c" by (cases c) auto
    ultimately have "cls_ci nameClass x" "isOrnament x"
      using assms(2) \<open>c = l\<close> by (auto simp: list_all_iff)
    then show False using ornament_not_name by blast
  qed
  with p have "(if c = [] then positional (find_title ?ls) ?ls False else c) \<noteq> l" by simp
  with processSmartMetadata_lines[OF ls c] t nc show ?thesis by simp
qed

theorem ornament_line_never_selected_witness:
  "ornamentLine \<in> set (textLines exOrnament) \<and> list_all isOrnament ornamentLine \<and>
   \<not> isCleanLine ornamentLine \<and>
   (\<exists>r. processSmartMetadata \<lparr>ocr_text = Some exOrnament\<rparr> = Inr r \<and>
        title r \<noteq> ornamentLine \<and> composer r \<noteq> ornamentLine)"
proof -
  have 1: "ornamentLine \<in> set (textLines exOrnament)" by (simp add: lines_ornament)
  have 2: "\<forall>c\<in>set ornamentLine. isOrnament c"
    by (simp add: ornamentLine_def isOrnament_def ornamentChars_def)
  from ornament_line_never_selected[OF 1 2] 1 2 show ?thesis by (simp add: list_all_iff)
qed

text \<open>
  Claim C9. For every input string the extractor returns a record of the three fields and
  throws nothing (the only exception of the model, a missing group 1, never happens); on
  the empty string the three fields are empty.
\<close>

theorem extract_total:
  "(\<exists>t c r. processSmartMetadata \<lparr>ocr_text = Some raw\<rparr> = Inr \<lparr>title = t, composer = c, rawText = r\<rparr>)
   \<and> processSmartMetadata \<lparr>ocr_text = Some []\<rparr> = Inr \<lparr>title = [], composer = [], rawText = []\<rparr>"
proof
  show "\<exists>t c r. processSmartMetadata \<lparr>ocr_text = Some raw\<rparr> = Inr \<lparr>title = t, composer = c, rawText = r\<rparr>"
  proof (cases "textLines raw = []")
    case True
    from processSmartMetadata_nolines[OF this] show ?thesis by blast
  next
    case False
    obtain c where "label_scan (textLines raw) [] = Inr c" using label_scan_Inr by blast
    from processSmartMetadata_lines[OF False this] show ?thesis by blast
  qed
  show "processSmartMetadata \<lparr>ocr_text = Some []\<rparr> = Inr \<lparr>title = [], composer = [], rawText = []\<rparr>"
    by (rule processSmartMetadata_nolines) (simp add: textLines_def trim_def)
qed

text \<open>
  Claim C10, as stated, fails: in \<open>exBlank\<close> a line matches the lyricist pattern and a
  line matches the composer pattern, the name captured from the latter is a single space,
  which trims to the empty string, and the composer returned is the positional fallback.
\<close>

theorem music_label_blank_capture_counterexample:
  "match lyricsRe lyricsLine = Some (13, Some (8, 13)) \<and>
   match musicRe blankMusicLine = Some (16, Some (8, 9)) \<and>
   group1 blankMusicLine (16, Some (8, 9)) = Some [0x20] \<and>
   trim [0x20] = [] \<and>
   processSmartMetadata \<lparr>ocr_text = Some exBlank\<rparr> =
     Inr \<lparr>title = [], composer = blankMusicLine, rawText = exBlank\<rparr> \<and>
   blankMusicLine \<noteq> trim [0x20]"
proof -
  have ne: "textLines exBlank \<noteq> []" unfolding lines_counter by simp
  have sc: "label_scan (textLines exBlank) [] = Inr []" unfolding lines_counter by (rule scan_counter)
  have "processSmartMetadata \<lparr>ocr_text = Some exBlank\<rparr> =
     Inr \<lparr>title = [], composer = blankMusicLine, rawText = exBlank\<rparr>"
    using processSmartMetadata_lines[OF ne sc, unfolded lines_counter title_counter pos_counter]
    by simp
  then show ?thesis
    using match_lyrics_lyricsLine match_music_blank group1_blank trim_blank blank_ne(1)
    by (simp del: group1.simps)
qed

text \<open>
  Claim C10, amended. The labelled scan ends at the first line that matches the composer
  pattern, with the trimmed name captured there, whatever lyricist lines stand before or
  after it; the composer returned is that name when it is not empty, and the positional
  fallback otherwise.
\<close>

theorem music_label_precedence:
  assumes "textLines raw = pre @ line # post"
    and "\<forall>l\<in>set pre. match musicRe l = None"
    and "match musicRe line = Some m"
  shows "\<exists>g r. group1 line m = Some g \<and> label_scan (textLines raw) [] = Inr (trim g) \<and>
           processSmartMetadata \<lparr>ocr_text = Some raw\<rparr> = Inr r \<and>
           composer r = (if trim g = [] then positional (title r) (textLines raw) False else trim g)"
proof -
  from musicRe_group[OF assms(3)] obtain g where g: "group1 line m = Some g" by blast
  have s: "label_scan (textLines raw) [] = Inr (trim g)"
    unfolding assms(1) using assms(2,3) g by (rule label_scan_first_music)
  from assms(1) have "textLines raw \<noteq> []" by simp
  from processSmartMetadata_lines[OF this s] g s show ?thesis by simp
qed

theorem music_label_precedence_witness:
  "textLines exBoth = [lyricsLine] @ musicLine # [] \<and>
   match musicRe lyricsLine = None \<and>
   match musicRe musicLine = Some (14, Some (9, 14)) \<and>
   match lyricsRe lyricsLine = Some (13, Some (8, 13)) \<and>
   (\<exists>r. processSmartMetadata \<lparr>ocr_text = Some exBoth\<rparr> = Inr r \<and>
        composer r = js ''Manos'')"
proof -
  have 1: "textLines exBoth = [lyricsLine] @ musicLine # []"
    by (simp add: lines_wit)
  have 2: "\<forall>l\<in>set [lyricsLine]. match musicRe l = None"
    by (simp add: match_music_lyricsLine)
  from music_label_precedence[OF 1 2 match_music_musicLine] obtain g r where
    g: "group1 musicLine (14, Some (9, 14)) = Some g"
    and r: "processSmartMetadata \<lparr>ocr_text = Some exBoth\<rparr> = Inr r"
    and c: "composer r = (if trim g = [] then positional (title r) (textLines exBoth) False else trim g)"
    by blast
  from g have "g = js ''Manos''" unfolding group1_musicLine by simp
  with c have "composer r = js ''Manos''" by (simp add: trim_Manos) (simp add: js_Cons)
  with r 1 match_music_lyricsLine match_music_musicLine match_lyrics_lyricsLine show ?thesis
    by blast
qed

section \<open>Facts about the compositor\<close>

lemma drawSegments_ok:
  assumes "rgbOf lib obj = Inr c"
    and "\<forall>seg\<in>set (segments c th op pts). lineOk lib seg"
  shows "drawSegments lib obj th op pts pg =
           (pg\<lparr>page_content := page_content pg @ map DrawLine (segments c th op pts)\<rparr>, None)"
  using assms(2)
proof (induction pts arbitrary: pg)
  case Nil
  show ?case by (simp add: segments_def)
next
  case (Cons a rest)
  show ?case
  proof (cases rest)
    case Nil
    then show ?thesis by (simp add: segments_def)
  next
    case (Cons b rest')
    have s: "segments c th op (a # b # rest') =
        \<lparr>l_start = a, l_end = b, l_thickness = th, l_color = c, l_opacity = op\<rparr>
          # segments c th op (b # rest')"
      by (simp add: segments_def)
    from Cons.prems have ok: "lineOk lib \<lparr>l_start = a, l_end = b, l_thickness = th, l_color = c, l_opacity = op\<rparr>"
      and rest: "\<forall>seg\<in>set (segments c th op rest). lineOk lib seg"
      unfolding Cons s by simp_all
    from Cons.IH[OF rest] ok assms(1) show ?thesis
      unfolding Cons s by simp
  qed
qed


lemma pathPointsOf_Some:
  "ann_type ann = js ''path'' \<Longrightarrow> ann_points ann = Some ps \<Longrightarrow> 2 \<le> length ps \<Longrightarrow>
   pathPointsOf ann = Some ps"
  by (simp add: pathPointsOf_def)

lemma pathPointsOf_None:
  "ann_type ann = js ''path'' \<Longrightarrow>
   ann_points ann = None \<or> (\<exists>ps. ann_points ann = Some ps \<and> length ps < 2) \<Longrightarrow>
   pathPointsOf ann = None"
  by (auto simp: pathPointsOf_def)


lemma js_path_text: "js ''path'' \<noteq> js ''text''"
  by (simp add: js_def)

lemma textOf_path: "ann_type ann = js ''path'' \<Longrightarrow> textOf ann = None"
  using js_path_text by (simp add: textOf_def)

lemma pathPointsOf_text: "ann_type ann = js ''text'' \<Longrightarrow> pathPointsOf ann = None"
  using js_path_text by (simp add: pathPointsOf_def)

lemma drawAnnotation_path:
  assumes p: "pathPointsOf ann = Some ps"
    and col: "rgbOf lib (colorObj lib ann yellow) = Inr c"
    and ok: "list_all (lineOk lib) (pathSegments ann c pg ps)"
  shows "drawAnnotation lib ann pg =
          (pg\<lparr>page_content := page_content pg @ map DrawLine (pathSegments ann c pg ps)\<rparr>, None)"
proof -
  have m: "map (\<lambda>p. (p_x p * page_width pg, page_height pg - p_y p * page_height pg)) ps
           = map (absPoint pg) ps"
    by (simp add: absPoint_def)
  from ok have ok': "\<forall>seg\<in>set (segments c (orDefault (ann_strokeWidth ann) 5)
       (case ann_opacity ann of None \<Rightarrow> 0.5 | Some v \<Rightarrow> v) (map (absPoint pg) ps)). lineOk lib seg"
    by (simp add: pathSegments_def list_all_iff)
  from col have col': "rgbOf lib (colorObj lib ann (JObject (Some 1) (Some 1) (Some 0))) = Inr c"
    by (simp add: yellow_def)
  show ?thesis
    unfolding drawAnnotation_def Let_def p option.case m pathSegments_def
    by (rule drawSegments_ok[OF col' ok'])
qed

lemma drawAnnotation_text:
  assumes p: "pathPointsOf ann = None" and t: "textOf ann = Some s"
    and col: "rgbOf lib (colorObj lib ann black) = Inr c"
    and ok: "textOk lib s (textOptionsOf ann c pg)"
  shows "drawAnnotation lib ann pg =
          (pg\<lparr>page_content := page_content pg @ [DrawText s (textOptionsOf ann c pg)]\<rparr>, None)"
proof -
  from col have col': "rgbOf lib (colorObj lib ann (JObject (Some 0) (Some 0) (Some 0))) = Inr c"
    by (simp add: black_def)
  have o: "\<lparr>t_x = ann_x ann * page_width pg,
            t_y = page_height pg - ann_y ann * page_height pg - orDefault (ann_size ann) 12 + 2,
            t_size = orDefault (ann_size ann) 12, t_color = c\<rparr> = textOptionsOf ann c pg"
    by (simp add: textOptionsOf_def fontSizeOf_def)
  from ok show ?thesis
    unfolding drawAnnotation_def Let_def p t option.case col' sum.case o by simp
qed

lemma drawAnnotation_neither:
  "pathPointsOf ann = None \<Longrightarrow> textOf ann = None \<Longrightarrow> drawAnnotation lib ann pg = (pg, None)"
  by (simp add: drawAnnotation_def)


lemma forEachPage_length:
  "forEachPage lib anns pages = Inr pages' \<Longrightarrow> length pages' = length pages"
proof (induction anns arbitrary: pages)
  case Nil
  then show ?case by simp
next
  case (Cons kv anns)
  obtain k v where kv: "kv = (k, v)" by (cases kv)
  from Cons.prems show ?case
    unfolding kv
    by (auto simp: Let_def split: option.splits if_splits sum.splits dest!: Cons.IH)
qed

lemma forEachPage_skip:
  "\<not> inRange (length pages) (parseInt k) \<Longrightarrow>
   forEachPage lib ((k, v) # rest) pages = forEachPage lib rest pages"
  by (auto simp: inRange_def split: option.splits)

lemma forEachPage_in:
  assumes "parseInt k = Some n" "1 \<le> n" "n \<le> int (length pages)"
  shows "forEachPage lib ((k, v) # rest) pages =
     (case pageAnnsOf v of
        Inl e \<Rightarrow> Inl e
      | Inr as \<Rightarrow> forEachPage lib rest (pages[nat (n - 1) := drawPageAnns lib as (pages ! nat (n - 1))]))"
  using assms by (simp add: Let_def)

lemma inRangeE:
  assumes "inRange m (parseInt k)"
  obtains n where "parseInt k = Some n" "1 \<le> n" "n \<le> int m"
  using assms by (auto simp: inRange_def split: option.splits)

lemma forEachPage_append:
  "forEachPage lib (xs @ ys) pages =
     (case forEachPage lib xs pages of Inl e \<Rightarrow> Inl e | Inr p \<Rightarrow> forEachPage lib ys p)"
proof (induction xs arbitrary: pages)
  case Nil
  show ?case by simp
next
  case (Cons kv xs)
  obtain k v where kv: "kv = (k, v)" by (cases kv)
  show ?case
  proof (cases "inRange (length pages) (parseInt k)")
    case True
    then obtain n where n: "parseInt k = Some n" "1 \<le> n" "n \<le> int (length pages)"
      by (rule inRangeE)
    show ?thesis
      unfolding kv append_Cons forEachPage_in[OF n]
      by (simp add: Cons.IH split: sum.splits)
  next
    case False
    show ?thesis
      unfolding kv append_Cons forEachPage_skip[OF False] by (rule Cons.IH)
  qed
qed

lemma forEachPage_filter:
  "forEachPage lib anns pages =
   forEachPage lib (filter (\<lambda>(k, v). inRange (length pages) (parseInt k)) anns) pages"
proof (induction anns arbitrary: pages)
  case Nil
  show ?case by simp
next
  case (Cons kv anns)
  obtain k v where kv: "kv = (k, v)" by (cases kv)
  show ?case
  proof (cases "inRange (length pages) (parseInt k)")
    case True
    then obtain n where n: "parseInt k = Some n" "1 \<le> n" "n \<le> int (length pages)"
      by (rule inRangeE)
    have f: "filter (\<lambda>(k, v). inRange (length pages) (parseInt k)) (kv # anns) =
        (k, v) # filter (\<lambda>(k, v). inRange (length pages) (parseInt k)) anns"
      using True by (simp add: kv)
    show ?thesis
    proof (cases "pageAnnsOf v")
      case (Inl e)
      then show ?thesis unfolding f unfolding kv forEachPage_in[OF n] by simp
    next
      case (Inr as)
      let ?pages' = "pages[nat (n - 1) := drawPageAnns lib as (pages ! nat (n - 1))]"
      have "length ?pages' = length pages" by simp
      with Cons.IH[of ?pages'] Inr show ?thesis
        unfolding f unfolding kv forEachPage_in[OF n] by simp
    qed
  next
    case False
    with Cons.IH[of pages] forEachPage_skip[OF False] show ?thesis
      unfolding kv by simp
  qed
qed





subsection \<open>The samples\<close>

lemma sample_rgb:
  "rgbOf sampleLib yellow = Inr (1, 1, 0)" "rgbOf sampleLib black = Inr (0, 0, 0)"
  "rgbOf sampleLib JNull = Inl TypeError"
  by (simp_all add: rgbOf_def sampleLib_def yellow_def black_def)

lemma sample_colorObj:
  "colorObj sampleLib samplePath d = d" "colorObj sampleLib sampleText d = d"
  "colorObj sampleLib singlePoint d = d"
  "colorObj sampleLib nullColourText d = JNull"
  by (simp_all add: colorObj_def samplePath_def sampleText_def singlePoint_def nullColourText_def
      sampleLib_def js_Nil js_Cons)

lemma sample_ok: "lineOk sampleLib opts" "textOk sampleLib s topts"
  by (simp_all add: sampleLib_def)

lemma sample_path_segments:
  "pathSegments samplePath (1, 1, 0) samplePage
      [\<lparr>p_x = 0, p_y = 0\<rparr>, \<lparr>p_x = 1/2, p_y = 1/2\<rparr>, \<lparr>p_x = 1, p_y = 1\<rparr>] =
     [\<lparr>l_start = (0, 200), l_end = (50, 100), l_thickness = 5, l_color = (1, 1, 0), l_opacity = 1/2\<rparr>,
      \<lparr>l_start = (50, 100), l_end = (100, 0), l_thickness = 5, l_color = (1, 1, 0), l_opacity = 1/2\<rparr>]"
  by (simp add: pathSegments_def segments_def absPoint_def orDefault_def samplePath_def samplePage_def)

lemma sample_pathPoints:
  "pathPointsOf samplePath =
      Some [\<lparr>p_x = 0, p_y = 0\<rparr>, \<lparr>p_x = 1/2, p_y = 1/2\<rparr>, \<lparr>p_x = 1, p_y = 1\<rparr>]"
  "pathPointsOf singlePoint = None" "pathPointsOf sampleText = None"
  "pathPointsOf nullColourText = None"
  by (simp_all add: pathPointsOf_def samplePath_def singlePoint_def sampleText_def
      nullColourText_def js_Nil js_Cons)

lemma sample_textOf:
  "textOf sampleText = Some (js ''Hi'')" "textOf nullColourText = Some (js ''Hi'')"
  "textOf singlePoint = None"
  by (simp_all add: textOf_def samplePath_def singlePoint_def sampleText_def
      nullColourText_def js_Nil js_Cons)

lemma sample_text_options:
  "textOptionsOf sampleText (0, 0, 0) samplePage =
     \<lparr>t_x = 0, t_y = 190, t_size = 12, t_color = (0, 0, 0)\<rparr>"
  by (simp add: textOptionsOf_def fontSizeOf_def orDefault_def sampleText_def samplePage_def)


lemma sample_text_drawn:
  "drawAnnotation sampleLib sampleText pg =
     (pg\<lparr>page_content := page_content pg @
        [DrawText (js ''Hi'') (textOptionsOf sampleText (0, 0, 0) pg)]\<rparr>, None)"
  by (rule drawAnnotation_text)
    (simp_all add: sample_pathPoints sample_textOf sample_colorObj sample_rgb sample_ok)


lemma page_content_samplePage: "page_content samplePage = []"
  by (simp add: samplePage_def)

lemma parseInt_samples:
  "parseInt (js ''0'') = Some 0" "parseInt (js ''1'') = Some 1" "parseInt (js ''2'') = Some 2"
  "parseInt (js ''3'') = Some 3"
  by (simp_all add: parseInt_def Let_def js_Nil js_Cons isWhiteSpace_eval digitValue_def)

section \<open>Properties of the compositor\<close>

text \<open>
  Claim C4. A path annotation with at least two points, whose colour resolves and whose
  strokes the library accepts, is drawn as the segments that join each converted point
  \<open>(x * width, height - y * height)\<close> to the next one; a path annotation with fewer than
  two points draws nothing and throws nothing.
\<close>

theorem path_annotation_segments:
  "(ann_type ann = js ''path'' \<and> ann_points ann = Some ps \<and> 2 \<le> length ps \<and>
    rgbOf lib (colorObj lib ann yellow) = Inr c \<and>
    list_all (lineOk lib) (pathSegments ann c pg ps)
    \<longrightarrow> drawAnnotation lib ann pg =
          (pg\<lparr>page_content := page_content pg @ map DrawLine (pathSegments ann c pg ps)\<rparr>, None))
   \<and> (ann_type ann = js ''path'' \<and>
      (ann_points ann = None \<or> (\<exists>ps. ann_points ann = Some ps \<and> length ps < 2))
    \<longrightarrow> drawAnnotation lib ann pg = (pg, None))"
proof (intro conjI impI)
  assume a: "ann_type ann = js ''path'' \<and> ann_points ann = Some ps \<and> 2 \<le> length ps \<and>
    rgbOf lib (colorObj lib ann yellow) = Inr c \<and>
    list_all (lineOk lib) (pathSegments ann c pg ps)"
  then have "pathPointsOf ann = Some ps" by (simp add: pathPointsOf_Some)
  with a show "drawAnnotation lib ann pg =
          (pg\<lparr>page_content := page_content pg @ map DrawLine (pathSegments ann c pg ps)\<rparr>, None)"
    by (simp add: drawAnnotation_path)
next
  assume a: "ann_type ann = js ''path'' \<and>
      (ann_points ann = None \<or> (\<exists>ps. ann_points ann = Some ps \<and> length ps < 2))"
  then have "pathPointsOf ann = None" "textOf ann = None"
    by (simp_all add: pathPointsOf_None textOf_path)
  then show "drawAnnotation lib ann pg = (pg, None)"
    by (rule drawAnnotation_neither)
qed

theorem path_annotation_segments_witness:
  "drawAnnotation sampleLib samplePath samplePage =
     (samplePage\<lparr>page_content :=
        [DrawLine \<lparr>l_start = (0, 200), l_end = (50, 100), l_thickness = 5,
                   l_color = (1, 1, 0), l_opacity = 1/2\<rparr>,
         DrawLine \<lparr>l_start = (50, 100), l_end = (100, 0), l_thickness = 5,
                   l_color = (1, 1, 0), l_opacity = 1/2\<rparr>]\<rparr>, None)
   \<and> drawAnnotation sampleLib singlePoint samplePage = (samplePage, None)"
proof -
  let ?ps = "[\<lparr>p_x = 0, p_y = 0\<rparr>, \<lparr>p_x = 1/2, p_y = 1/2\<rparr>, \<lparr>p_x = 1, p_y = 1\<rparr>]"
  have h1: "ann_type samplePath = js ''path'' \<and> ann_points samplePath = Some ?ps \<and>
      2 \<le> length ?ps \<and> rgbOf sampleLib (colorObj sampleLib samplePath yellow) = Inr (1, 1, 0) \<and>
      list_all (lineOk sampleLib) (pathSegments samplePath (1, 1, 0) samplePage ?ps)"
    by (simp add: sample_colorObj sample_rgb list_all_iff sample_ok) (simp add: samplePath_def)
  have h2: "ann_type singlePoint = js ''path'' \<and>
      (ann_points singlePoint = None \<or> (\<exists>ps. ann_points singlePoint = Some ps \<and> length ps < 2))"
    by (simp add: singlePoint_def samplePath_def)
  from path_annotation_segments[of samplePath ?ps sampleLib "(1, 1, 0)" samplePage] h1
  have "drawAnnotation sampleLib samplePath samplePage =
      (samplePage\<lparr>page_content := page_content samplePage @
          map DrawLine (pathSegments samplePath (1, 1, 0) samplePage ?ps)\<rparr>, None)"
    by blast
  moreover from path_annotation_segments[of singlePoint ?ps sampleLib "(1, 1, 0)" samplePage] h2
  have "drawAnnotation sampleLib singlePoint samplePage = (samplePage, None)"
    by blast
  ultimately show ?thesis
    by (simp add: sample_path_segments page_content_samplePage)
qed

text \<open>
  Claim C5. A text annotation with a non-empty string, whose colour resolves and which
  the library accepts, is drawn at \<open>(x * width, height - y * height - (fontSize - 2))\<close>; at
  \<open>x = 0\<close>, \<open>y = 0\<close> that is \<open>(0, height - (fontSize - 2))\<close>, at the top of the page.
\<close>

theorem text_annotation_position:
  "(ann_type ann = js ''text'' \<and> ann_text ann = Some s \<and> s \<noteq> [] \<and>
    rgbOf lib (colorObj lib ann black) = Inr c \<and> textOk lib s (textOptionsOf ann c pg)
    \<longrightarrow> drawAnnotation lib ann pg =
          (pg\<lparr>page_content := page_content pg @ [DrawText s (textOptionsOf ann c pg)]\<rparr>, None))
   \<and> (ann_x ann = 0 \<and> ann_y ann = 0
    \<longrightarrow> t_x (textOptionsOf ann c pg) = 0 \<and>
        t_y (textOptionsOf ann c pg) = page_height pg - (fontSizeOf ann - 2))"
proof (intro conjI impI)
  assume a: "ann_type ann = js ''text'' \<and> ann_text ann = Some s \<and> s \<noteq> [] \<and>
    rgbOf lib (colorObj lib ann black) = Inr c \<and> textOk lib s (textOptionsOf ann c pg)"
  then have "pathPointsOf ann = None" "textOf ann = Some s"
    by (simp_all add: pathPointsOf_text textOf_def)
  with a show "drawAnnotation lib ann pg =
          (pg\<lparr>page_content := page_content pg @ [DrawText s (textOptionsOf ann c pg)]\<rparr>, None)"
    by (simp add: drawAnnotation_text)
next
  assume "ann_x ann = 0 \<and> ann_y ann = 0"
  then show "t_x (textOptionsOf ann c pg) = 0" by (simp add: textOptionsOf_def)
next
  assume "ann_x ann = 0 \<and> ann_y ann = 0"
  then show "t_y (textOptionsOf ann c pg) = page_height pg - (fontSizeOf ann - 2)"
    by (simp add: textOptionsOf_def)
qed

theorem text_annotation_position_witness:
  "drawAnnotation sampleLib sampleText samplePage =
     (samplePage\<lparr>page_content :=
        [DrawText (js ''Hi'') \<lparr>t_x = 0, t_y = 190, t_size = 12, t_color = (0, 0, 0)\<rparr>]\<rparr>, None)
   \<and> page_height samplePage = 200"
proof -
  have h: "ann_type sampleText = js ''text'' \<and> ann_text sampleText = Some (js ''Hi'') \<and>
      js ''Hi'' \<noteq> [] \<and> rgbOf sampleLib (colorObj sampleLib sampleText black) = Inr (0, 0, 0) \<and>
      textOk sampleLib (js ''Hi'') (textOptionsOf sampleText (0, 0, 0) samplePage)"
    by (simp add: sample_colorObj sample_rgb sample_ok) (simp add: sampleText_def js_def)
  from text_annotation_position[of sampleText "js ''Hi''" sampleLib "(0, 0, 0)" samplePage] h
  have "drawAnnotation sampleLib sampleText samplePage =
      (samplePage\<lparr>page_content := page_content samplePage @
          [DrawText (js ''Hi'') (textOptionsOf sampleText (0, 0, 0) samplePage)]\<rparr>, None)"
    by blast
  then show ?thesis
    by (simp add: sample_text_options page_content_samplePage) (simp add: samplePage_def)
qed

text \<open>
  Claim C6. A key whose page number is outside \<open>1 .. page count\<close> (or is not a number)
  is skipped: the operation gives what it gives on the in-range keys alone, such a key
  changes nothing wherever it stands, keys that are all outside leave the pages as they
  are with no error; 0 and every number above the page count are outside.
\<close>

theorem out_of_range_pages_skipped:
  "applyAnnotations lib (Inr pages) (Inr font) anns =
     applyAnnotations lib (Inr pages) (Inr font)
       (filter (\<lambda>(k, v). inRange (length pages) (parseInt k)) anns)
   \<and> (\<not> inRange (length pages) (parseInt k)
      \<longrightarrow> applyAnnotations lib (Inr pages) (Inr font) (before @ (k, v) # after) =
          applyAnnotations lib (Inr pages) (Inr font) (before @ after))
   \<and> (list_all (\<lambda>(k, v). \<not> inRange (length pages) (parseInt k)) anns
      \<longrightarrow> applyAnnotations lib (Inr pages) (Inr font) anns = Inr pages)
   \<and> \<not> inRange (length pages) (Some 0)
   \<and> (int (length pages) < m \<longrightarrow> \<not> inRange (length pages) (Some m))"
proof (intro conjI impI)
  show "applyAnnotations lib (Inr pages) (Inr font) anns =
     applyAnnotations lib (Inr pages) (Inr font)
       (filter (\<lambda>(k, v). inRange (length pages) (parseInt k)) anns)"
    using forEachPage_filter[of lib anns pages] by (simp add: applyAnnotations_def)
next
  assume a: "\<not> inRange (length pages) (parseInt k)"
  have "forEachPage lib ((k, v) # after) p = forEachPage lib after p"
    if "forEachPage lib before pages = Inr p" for p
  proof -
    from that have "length p = length pages" by (rule forEachPage_length)
    with a have "\<not> inRange (length p) (parseInt k)" by simp
    then show ?thesis by (rule forEachPage_skip)
  qed
  then have "forEachPage lib (before @ (k, v) # after) pages = forEachPage lib (before @ after) pages"
    unfolding forEachPage_append by (simp split: sum.splits)
  then show "applyAnnotations lib (Inr pages) (Inr font) (before @ (k, v) # after) =
          applyAnnotations lib (Inr pages) (Inr font) (before @ after)"
    by (simp add: applyAnnotations_def)
next
  assume "list_all (\<lambda>(k, v). \<not> inRange (length pages) (parseInt k)) anns"
  then have "filter (\<lambda>(k, v). inRange (length pages) (parseInt k)) anns = []"
    by (auto simp: list_all_iff filter_empty_conv)
  with forEachPage_filter[of lib anns pages]
  show "applyAnnotations lib (Inr pages) (Inr font) anns = Inr pages"
    by (simp add: applyAnnotations_def)
next
  show "\<not> inRange (length pages) (Some 0)" by (simp add: inRange_def)
next
  assume "int (length pages) < m"
  then show "\<not> inRange (length pages) (Some m)" by (simp add: inRange_def)
qed

theorem out_of_range_pages_skipped_witness:
  "applyAnnotations sampleLib (Inr [samplePage, samplePage]) (Inr ())
      [(js ''0'', NotArray), (js ''1'', Array [sampleText]), (js ''3'', Array [sampleText])] =
     Inr [samplePage\<lparr>page_content :=
            [DrawText (js ''Hi'') \<lparr>t_x = 0, t_y = 190, t_size = 12, t_color = (0, 0, 0)\<rparr>]\<rparr>,
          samplePage]
   \<and> applyAnnotations sampleLib (Inr [samplePage, samplePage]) (Inr ())
      [(js ''0'', NotArray), (js ''3'', Array [sampleText])] = Inr [samplePage, samplePage]"
proof -
  let ?pages = "[samplePage, samplePage]"
  let ?e = "Array [sampleText]"
  have r0: "\<not> inRange (length ?pages) (parseInt (js ''0''))"
    and r3: "\<not> inRange (length ?pages) (parseInt (js ''3''))"
    by (simp_all add: parseInt_samples inRange_def)
  from out_of_range_pages_skipped[of sampleLib ?pages "()" "[]" "js ''0''" "[]" NotArray "[(js ''1'', ?e), (js ''3'', ?e)]" 0] r0
  have 1: "applyAnnotations sampleLib (Inr ?pages) (Inr ())
      [(js ''0'', NotArray), (js ''1'', ?e), (js ''3'', ?e)] =
      applyAnnotations sampleLib (Inr ?pages) (Inr ()) [(js ''1'', ?e), (js ''3'', ?e)]"
    by simp
  from out_of_range_pages_skipped[of sampleLib ?pages "()" "[]" "js ''3''" "[(js ''1'', ?e)]" ?e "[]" 0] r3
  have 2: "applyAnnotations sampleLib (Inr ?pages) (Inr ()) [(js ''1'', ?e), (js ''3'', ?e)] =
      applyAnnotations sampleLib (Inr ?pages) (Inr ()) [(js ''1'', ?e)]"
    by simp
  have 3: "applyAnnotations sampleLib (Inr ?pages) (Inr ()) [(js ''1'', ?e)] =
     Inr [samplePage\<lparr>page_content :=
            [DrawText (js ''Hi'') \<lparr>t_x = 0, t_y = 190, t_size = 12, t_color = (0, 0, 0)\<rparr>]\<rparr>,
          samplePage]"
    by (simp add: applyAnnotations_def parseInt_samples sample_text_drawn sample_text_options
        page_content_samplePage)
  have "list_all (\<lambda>(k, v). \<not> inRange (length ?pages) (parseInt k))
      [(js ''0'', NotArray), (js ''3'', ?e)]"
    using r0 r3 by simp
  with out_of_range_pages_skipped[of sampleLib ?pages "()" "[(js ''0'', NotArray), (js ''3'', ?e)]"]
  have 4: "applyAnnotations sampleLib (Inr ?pages) (Inr ())
      [(js ''0'', NotArray), (js ''3'', ?e)] = Inr ?pages"
    by blast
  from 1 2 3 4 show ?thesis by simp
qed




end
